theory Spec2Isabelle
  imports Main "HOL-Library.Char_ord" "HOL-Library.List_Lexorder" "HOL-Library.Sublist"
begin

section \<open>JavaScript values\<close>

text \<open>
  The values the client handles: what \<^verbatim>\<open>JSON.parse\<close> produces, \<^verbatim>\<open>undefined\<close>, and
  the built-in functions an object inherits from \<^verbatim>\<open>Object.prototype\<close>. Numbers are
  integers (every number the client computes with is a millisecond time stamp or a
  status code); \<^verbatim>\<open>NaN\<close> only arises from arithmetic and has the type \<open>jsnum\<close>.
  Strings are byte strings. An object is the list of its own enumerable properties in
  the order \<^verbatim>\<open>Object.keys\<close> reports them.
\<close>

datatype jsval =
    JUndefined
  | JNull
  | JBool bool
  | JNum int
  | JStr string
  | JArr "jsval list"
  | JObj "(string \<times> jsval) list"
  | JFunction string

type_synonym obj = "(string \<times> jsval) list"

datatype jsnum = Fin int | NaN

fun truthy :: "jsval \<Rightarrow> bool" where
  "truthy JUndefined = False"
| "truthy JNull = False"
| "truthy (JBool b) = b"
| "truthy (JNum n) = (n \<noteq> 0)"
| "truthy (JStr s) = (s \<noteq> [])"
| "truthy (JArr vs) = True"
| "truthy (JObj ps) = True"
| "truthy (JFunction f) = True"

subsection \<open>Numbers as strings\<close>

definition digit_chars :: string where
  "digit_chars = ''0123456789''"

fun show_nat :: "nat \<Rightarrow> string" where
  "show_nat n = (if n < 10 then [digit_chars ! n] else show_nat (n div 10) @ [digit_chars ! (n mod 10)])"

declare show_nat.simps [simp del]

definition show_int :: "int \<Rightarrow> string" where
  "show_int i = (if i < 0 then CHR ''-'' # show_nat (nat (- i)) else show_nat (nat i))"

definition is_digit :: "char \<Rightarrow> bool" where
  "is_digit c = (c \<in> set digit_chars)"

definition digit_val :: "char \<Rightarrow> nat" where
  "digit_val c = length (takeWhile (\<lambda>d. d \<noteq> c) digit_chars)"

definition digits_val :: "string \<Rightarrow> nat" where
  "digits_val s = foldl (\<lambda>a c. 10 * a + digit_val c) 0 s"

text \<open>
  A property name is an array index when it is the canonical decimal form of an integer
  below \<open>2^32 - 1\<close>; such properties are enumerated first, in ascending numeric order,
  and the others follow in the order of their creation.
\<close>

definition array_index :: "string \<Rightarrow> nat option" where
  "array_index k =
     (if k \<noteq> [] \<and> list_all is_digit k \<and> (if length k = 1 then True else hd k \<noteq> CHR ''0'')
         \<and> digits_val k < 4294967295
      then Some (digits_val k) else None)"

subsection \<open>Objects\<close>

definition obj_get :: "obj \<Rightarrow> string \<Rightarrow> jsval" where
  "obj_get ps k = (case map_of ps k of Some v \<Rightarrow> v | None \<Rightarrow> JUndefined)"

fun obj_insert_index :: "nat \<Rightarrow> string \<Rightarrow> jsval \<Rightarrow> obj \<Rightarrow> obj" where
  "obj_insert_index n k v [] = [(k, v)]"
| "obj_insert_index n k v ((k', v') # ps) =
     (case array_index k' of
        Some m \<Rightarrow> if m < n then (k', v') # obj_insert_index n k v ps else (k, v) # (k', v') # ps
      | None \<Rightarrow> (k, v) # (k', v') # ps)"

definition obj_set :: "string \<Rightarrow> jsval \<Rightarrow> obj \<Rightarrow> obj" where
  "obj_set k v ps =
     (if k \<in> set (map fst ps) then map (\<lambda>p. if fst p = k then (k, v) else p) ps
      else case array_index k of
             Some n \<Rightarrow> obj_insert_index n k v ps
           | None \<Rightarrow> ps @ [(k, v)])"

definition obj_delete :: "string \<Rightarrow> obj \<Rightarrow> obj" where
  "obj_delete k ps = filter (\<lambda>p. fst p \<noteq> k) ps"

text \<open>
  The own enumerable properties \<^verbatim>\<open>Object.assign\<close> copies from a source: those of an
  object, the elements of an array, the characters of a string, and nothing for
  \<^verbatim>\<open>undefined\<close>, \<^verbatim>\<open>null\<close>, a number, a boolean or a built-in function.
\<close>

fun own_entries :: "jsval \<Rightarrow> obj" where
  "own_entries (JObj ps) = ps"
| "own_entries (JArr vs) = zip (map show_nat [0..<length vs]) vs"
| "own_entries (JStr s) = zip (map show_nat [0..<length s]) (map (\<lambda>c. JStr [c]) s)"
| "own_entries v = []"

definition Object_assign :: "obj \<Rightarrow> jsval list \<Rightarrow> obj" where
  "Object_assign target sources =
     fold (\<lambda>src t. fold (\<lambda>p t'. obj_set (fst p) (snd p) t') (own_entries src) t) sources target"

text \<open>
  Reading a property whose name is fixed in the source text (\<^verbatim>\<open>opts.touser\<close>,
  \<^verbatim>\<open>result.errcode\<close>, ...) from a value that is neither \<^verbatim>\<open>undefined\<close> nor
  \<^verbatim>\<open>null\<close>: none of the names the client reads is a property of a string, an array, a
  number, a boolean or \<^verbatim>\<open>Object.prototype\<close>, so only an object's own property is found.
\<close>

fun get_field :: "jsval \<Rightarrow> string \<Rightarrow> jsval" where
  "get_field (JObj ps) k = obj_get ps k"
| "get_field v k = JUndefined"

subsection \<open>Conversion to a string\<close>

fun join :: "string \<Rightarrow> string list \<Rightarrow> string" where
  "join sep [] = []"
| "join sep [x] = x"
| "join sep (x # y # xs) = x @ sep @ join sep (y # xs)"

text \<open>
  \<^verbatim>\<open>ToString\<close>, as a template literal applies it. An array prints its elements joined by
  commas, with \<^verbatim>\<open>undefined\<close> and \<^verbatim>\<open>null\<close> elements empty.
\<close>

fun ToString :: "jsval \<Rightarrow> string" where
  "ToString JUndefined = ''undefined''"
| "ToString JNull = ''null''"
| "ToString (JBool b) = (if b then ''true'' else ''false'')"
| "ToString (JNum n) = show_int n"
| "ToString (JStr s) = s"
| "ToString (JArr vs) =
     join '','' (map (\<lambda>v. if v = JUndefined \<or> v = JNull then [] else ToString v) vs)"
| "ToString (JObj ps) = ''[object Object]''"
| "ToString (JFunction f) = ''function '' @ f @ ''() { [native code] }''"

text \<open>
  \<^verbatim>\<open>ToNumber\<close> on the values whose conversion is a case distinction. The conversion of
  a string, an array, an object or a function is not modelled (\<open>None\<close>).
\<close>

fun ToNumber :: "jsval \<Rightarrow> jsnum option" where
  "ToNumber JUndefined = Some NaN"
| "ToNumber JNull = Some (Fin 0)"
| "ToNumber (JBool b) = Some (Fin (if b then 1 else 0))"
| "ToNumber (JNum n) = Some (Fin n)"
| "ToNumber v = None"

section \<open>The client and its environment\<close>

datatype error =
    AssertionError string
  | TypeError string
  | DingTalkClientResponseError string jsval jsval
  | TransportError jsval
  | Unmodelled string

text \<open>
  \<open>DingTalkClientResponseError url code data\<close> is the error \<^verbatim>\<open>request\<close> builds: its
  message is determined by the URL and the body, \<open>code\<close> and \<open>data\<close> are its
  properties of these names. \<open>TransportError err\<close> is whatever \<^verbatim>\<open>urllib.request\<close>
  rejected with, rethrown. \<open>Unmodelled\<close> marks the runs the model does not follow.
\<close>

record options =
  appkey :: string
  appsecret :: string
  host :: string
  proxy :: "string option"
  sso :: bool
  corpid :: jsval
  requestOpts :: jsval

text \<open>The plain objects \<^verbatim>\<open>{ accessToken, expireTime }\<close> and \<^verbatim>\<open>{ ticket, expireTime }\<close>.\<close>

datatype token = Token (accessToken: jsval) (expireTime: jsnum)

datatype ticketToken = TicketToken (ticket: jsval) (ticketExpireTime: jsnum)

datatype outcome = Resolved obj | Rejected jsval

text \<open>
  The state a call can read and change: the clock \<^verbatim>\<open>Date.now()\<close> reads, the two
  in-memory stores of the default load and save hooks (\<^verbatim>\<open>this.store\<close>,
  \<^verbatim>\<open>this.ticketStore\<close>), and the calls made to \<^verbatim>\<open>urllib.request\<close> so far, each with
  its URL and options. Writing to the logger is not part of the state.
\<close>

record world =
  clock :: int
  store :: "token option"
  ticketStore :: "string \<Rightarrow> ticketToken option"
  sent :: "(string \<times> obj) list"

text \<open>
  What the client takes from Node and from the network: \<^verbatim>\<open>querystring.stringify\<close>,
  the hex SHA-1 digest of \<^verbatim>\<open>crypto\<close>, and the HTTP transport. The transport answers
  a call, given the calls made before it, with an outcome and the time the call took in
  milliseconds.
\<close>

record env =
  qs_stringify :: "jsval \<Rightarrow> string"
  sha1_hex :: "string \<Rightarrow> string"
  urllib_request :: "(string \<times> obj) list \<Rightarrow> string \<Rightarrow> obj \<Rightarrow> outcome \<times> nat"

definition Date_now :: "world \<Rightarrow> int" where
  "Date_now w = clock w"

definition urllib_call :: "env \<Rightarrow> string \<Rightarrow> obj \<Rightarrow> world \<Rightarrow> outcome \<times> world" where
  "urllib_call ev url ro w =
     (let r = urllib_request ev (sent w) url ro
      in (fst r, w\<lparr>clock := clock w + int (snd r), sent := sent w @ [(url, ro)]\<rparr>))"

subsection \<open>The default hooks\<close>

definition getToken :: "world \<Rightarrow> token option" where
  "getToken w = store w"

definition saveToken :: "token \<Rightarrow> world \<Rightarrow> world" where
  "saveToken t w = w\<lparr>store := Some t\<rparr>"

definition getTicketToken :: "string \<Rightarrow> world \<Rightarrow> ticketToken option" where
  "getTicketToken type w = ticketStore w type"

definition saveTicketToken :: "string \<Rightarrow> ticketToken \<Rightarrow> world \<Rightarrow> world" where
  "saveTicketToken type t w = w\<lparr>ticketStore := (ticketStore w)(type \<mapsto> t)\<rparr>"

subsection \<open>Validity of a credential\<close>

text \<open>
  Modelled from the spec: the classes \<^verbatim>\<open>AccessToken\<close> and \<^verbatim>\<open>Ticket\<close> (the modules
  \<^verbatim>\<open>./access-token\<close> and \<^verbatim>\<open>./ticket\<close>) are required by the client and are not among the
  source files. The specification says of both credentials: "considered valid while
  current time is before expireTime". A comparison with \<^verbatim>\<open>NaN\<close> is false.
\<close>

definition AccessToken_isValid :: "int \<Rightarrow> jsval \<Rightarrow> jsnum \<Rightarrow> bool" where
  "AccessToken_isValid now a e = (case e of Fin t \<Rightarrow> now < t | NaN \<Rightarrow> False)"

definition Ticket_isValid :: "int \<Rightarrow> jsval \<Rightarrow> jsnum \<Rightarrow> bool" where
  "Ticket_isValid now a e = (case e of Fin t \<Rightarrow> now < t | NaN \<Rightarrow> False)"

subsection \<open>String replacement\<close>

text \<open>
  \<^verbatim>\<open>s.replace(pat, rep)\<close> with a string pattern replaces the first occurrence. A \<open>$\<close>
  in the replacement starts a substitution pattern; \<^verbatim>\<open>request\<close> gives up on such a
  proxy (\<open>Unmodelled\<close>).
\<close>

fun replace_first :: "string \<Rightarrow> string \<Rightarrow> string \<Rightarrow> string" where
  "replace_first pat rep [] = (if pat = [] then rep else [])"
| "replace_first pat rep (c # s) =
     (if prefix pat (c # s) then rep @ drop (length pat) (c # s)
      else c # replace_first pat rep s)"

subsection \<open>The request primitive\<close>

text \<open>
  The time stamp saved with a fresh credential: \<^verbatim>\<open>now + (expires_in - 10) * 1000\<close>.
  JavaScript computes it in double precision, which is exact as long as the operands and
  the results of the subtraction, the product and the sum are safe integers (of
  magnitude at most \<open>2^53 - 1\<close>). Beyond that range the result is rounded, and the model
  does not follow the computation (\<open>None\<close>). \<^verbatim>\<open>NaN\<close> stays \<^verbatim>\<open>NaN\<close>.
\<close>

definition safe_integer :: "int \<Rightarrow> bool" where
  "safe_integer n = (- 9007199254740991 \<le> n \<and> n \<le> 9007199254740991)"

definition expire_time :: "int \<Rightarrow> jsnum \<Rightarrow> jsnum option" where
  "expire_time now n =
     (case n of
        NaN \<Rightarrow> Some NaN
      | Fin e \<Rightarrow>
          if safe_integer now \<and> safe_integer e \<and> safe_integer (e - 10)
             \<and> safe_integer ((e - 10) * 1000) \<and> safe_integer (now + (e - 10) * 1000)
          then Some (Fin (now + (e - 10) * 1000)) else None)"

text \<open>
  \<^verbatim>\<open>params.access_token = accessToken\<close>: on an object it sets the property, on a
  primitive it throws (the module is in strict mode); an array or function with an extra
  property is not modelled. The object may be one the caller passed in; the model hands
  the updated object on to the rest of \<^verbatim>\<open>request\<close> and does not follow the caller's
  reference to it.
\<close>

fun set_access_token :: "jsval \<Rightarrow> jsval \<Rightarrow> error + jsval" where
  "set_access_token (JObj ps) t = Inr (JObj (obj_set ''access_token'' t ps))"
| "set_access_token (JArr vs) t = Inl (Unmodelled ''params is an array'')"
| "set_access_token (JFunction f) t = Inl (Unmodelled ''params is a function'')"
| "set_access_token v t = Inl (TypeError ''Cannot create property access_token'')"

text \<open>
  The parts of \<^verbatim>\<open>request\<close>, in the order of its text: the merged options
  (\<open>merge_opts\<close>), the query parameters (\<open>params_of\<close>), the options left for the
  transport after the three \<^verbatim>\<open>delete\<close>s (\<open>strip_opts\<close>), the rewriting of the host
  to the proxy (\<open>proxy_url\<close>), and the handling of the transport's outcome
  (\<open>unwrap\<close>). \<open>send_request\<close> is \<^verbatim>\<open>request\<close> from the line that builds the URL on.
\<close>

definition merge_opts :: "options \<Rightarrow> jsval \<Rightarrow> obj" where
  "merge_opts os opts = Object_assign [(''dataType'', JStr ''json'')] [requestOpts os, opts]"

definition params_of :: "obj \<Rightarrow> jsval" where
  "params_of ro = (if truthy (obj_get ro ''params'') then obj_get ro ''params'' else JObj [])"

definition strip_opts :: "obj \<Rightarrow> obj" where
  "strip_opts ro =
     obj_delete ''accessToken'' (obj_delete ''ignoreAccessToken'' (obj_delete ''params'' ro))"

definition proxy_url :: "options \<Rightarrow> string \<Rightarrow> error + string" where
  "proxy_url os url =
     (case proxy os of
        None \<Rightarrow> Inr url
      | Some p \<Rightarrow>
          if p = [] then Inr url
          else if CHR ''$'' \<in> set p then Inl (Unmodelled ''$ in the proxy'')
          else Inr (replace_first (host os) p url))"

definition unwrap :: "string \<Rightarrow> outcome \<Rightarrow> error + jsval" where
  "unwrap url out =
     (case out of
        Rejected err \<Rightarrow> Inl (TransportError err)
      | Resolved response \<Rightarrow>
          (let result = obj_get response ''data''
           in if truthy result then
                if get_field result ''errcode'' \<noteq> JNum 0
                then Inl (DingTalkClientResponseError url (get_field result ''errcode'') result)
                else Inr result
              else Inr (JObj response)))"

definition send_request ::
  "env \<Rightarrow> options \<Rightarrow> string \<Rightarrow> obj \<Rightarrow> jsval \<Rightarrow> world \<Rightarrow> (error + jsval) \<times> world" where
  "send_request ev os url ro params w =
     (case proxy_url os (url @ ''?'' @ qs_stringify ev params) of
        Inl e \<Rightarrow> (Inl e, w)
      | Inr url2 \<Rightarrow>
          (case urllib_call ev url2 (strip_opts ro) w of
             (out, w2) \<Rightarrow> (unwrap url2 out, w2)))"

definition ignores_token :: "options \<Rightarrow> jsval \<Rightarrow> bool" where
  "ignores_token os opts = truthy (obj_get (merge_opts os opts) ''ignoreAccessToken'')"

text \<open>Lookup after an update sees the update; this is what the recursion of the
  request primitive rests on: a call that sets \<^verbatim>\<open>ignoreAccessToken\<close> does not ask for
  a token again.\<close>

lemma map_of_insert_index:
  "k \<notin> set (map fst ps) \<Longrightarrow> map_of (obj_insert_index n k v ps) = (map_of ps)(k \<mapsto> v)"
  by (induction ps) (auto split: option.splits simp: fun_upd_twist)

lemma map_of_map_upd:
  "map_of (map (\<lambda>p. if fst p = k then (k, v) else p) ps) =
     (if k \<in> set (map fst ps) then (map_of ps)(k \<mapsto> v) else map_of ps)"
  by (induction ps) (auto simp: fun_upd_twist)

lemma map_of_snoc_new:
  "k \<notin> set (map fst ps) \<Longrightarrow> map_of (ps @ [(k, v)]) = (map_of ps)(k \<mapsto> v)"
  by (induction ps) (auto simp: fun_upd_twist)

lemma map_of_obj_set: "map_of (obj_set k v ps) = (map_of ps)(k \<mapsto> v)"
  by (simp add: obj_set_def map_of_insert_index map_of_map_upd map_of_snoc_new
        split: option.splits del: map_of_append)

lemma obj_get_obj_set: "obj_get (obj_set k v ps) k' = (if k' = k then v else obj_get ps k')"
  by (simp add: obj_get_def map_of_obj_set)

lemma map_of_fold_obj_set:
  "map_of (fold (\<lambda>p t. obj_set (fst p) (snd p) t) es ps) = map_of ps ++ map_of (rev es)"
  by (induction es arbitrary: ps) (auto simp: map_of_obj_set)

lemma ignores_token_get:
  "ignores_token os (JObj (Object_assign [(''params'', p)] [JObj [(''ignoreAccessToken'', JBool True)]]))"
  apply (simp add: ignores_token_def merge_opts_def Object_assign_def obj_get_def map_of_fold_obj_set map_of_obj_set)
  apply (simp add: obj_set_def array_index_def)
  done

function request :: "env \<Rightarrow> options \<Rightarrow> string \<Rightarrow> jsval \<Rightarrow> world \<Rightarrow> (error + jsval) \<times> world"
  and getAccessToken :: "env \<Rightarrow> options \<Rightarrow> world \<Rightarrow> (error + jsval) \<times> world"
  and get :: "env \<Rightarrow> options \<Rightarrow> string \<Rightarrow> jsval \<Rightarrow> jsval \<Rightarrow> world \<Rightarrow> (error + jsval) \<times> world"
where
  "request ev os url opts w =
     (let ro = merge_opts os opts;
          params = params_of ro
      in if \<not> truthy (obj_get ro ''ignoreAccessToken'') then
           (case (if \<not> truthy (obj_get ro ''accessToken'')
                  then getAccessToken ev os w
                  else (Inr (obj_get ro ''accessToken''), w)) of
              (Inl e, w1) \<Rightarrow> (Inl e, w1)
            | (Inr tok, w1) \<Rightarrow>
                (case set_access_token params tok of
                   Inl e \<Rightarrow> (Inl e, w1)
                 | Inr params' \<Rightarrow> send_request ev os url ro params' w1))
         else send_request ev os url ro params w)"
| "getAccessToken ev os w =
     (case (case getToken w of
              None \<Rightarrow> None
            | Some token \<Rightarrow>
                if AccessToken_isValid (Date_now w) (accessToken token) (expireTime token)
                then Some (accessToken token) else None) of
        Some t \<Rightarrow> (Inr t, w)
      | None \<Rightarrow>
          (let url = (if sso os then ''sso/gettoken'' else ''gettoken'');
               data = (if sso os
                       then JObj [(''corpid'', JStr (appkey os)), (''corpsecret'', JStr (appsecret os))]
                       else JObj [(''appkey'', JStr (appkey os)), (''appsecret'', JStr (appsecret os))])
           in case get ev os url data (JObj [(''ignoreAccessToken'', JBool True)]) w of
                (Inl e, w1) \<Rightarrow> (Inl e, w1)
              | (Inr response, w1) \<Rightarrow>
                  (let access_token = get_field response ''access_token'';
                       expires_in = get_field response ''expires_in''
                   in case ToNumber expires_in of
                        None \<Rightarrow> (Inl (Unmodelled ''expires_in is not a number''), w1)
                      | Some n \<Rightarrow>
                          (case expire_time (Date_now w1) n of
                             None \<Rightarrow> (Inl (Unmodelled ''expireTime is not a safe integer''), w1)
                           | Some t \<Rightarrow>
                               (Inr access_token, saveToken (Token access_token t) w1)))))"
| "get ev os api params opts w =
     (if api = [] then (Inl (AssertionError ''api path required''), w)
      else request ev os (host os @ ''/'' @ api)
             (JObj (Object_assign [(''params'', params)] [opts])) w)"
  by pat_completeness auto

termination
  apply (relation "measure (\<lambda>x. case x of
            Inl (ev, os, url, opts, w) \<Rightarrow> (if ignores_token os opts then 0 else 3)
          | Inr (Inl (ev, os, w)) \<Rightarrow> 2
          | Inr (Inr (ev, os, api, params, opts, w)) \<Rightarrow>
              (if ignores_token os (JObj (Object_assign [(''params'', params)] [opts])) then 1 else 4))")
     apply simp
    apply (simp add: ignores_token_def)
   apply (simp add: ignores_token_get)
  apply simp
  done

declare request.simps [simp del] getAccessToken.simps [simp del] get.simps [simp del]

definition post :: "env \<Rightarrow> options \<Rightarrow> string \<Rightarrow> jsval \<Rightarrow> jsval \<Rightarrow> world \<Rightarrow> (error + jsval) \<times> world" where
  "post ev os api data opts w =
     (if api = [] then (Inl (AssertionError ''api path required''), w)
      else request ev os (host os @ ''/'' @ api)
             (JObj (Object_assign
                [(''method'', JStr ''POST''), (''contentType'', JStr ''json''), (''data'', data)]
                [opts])) w)"

subsection \<open>The ticket\<close>

text \<open>
  \<^verbatim>\<open>getJSApiTicket(type)\<close>. The in-memory ticket store is indexed by the string form of
  the type; a type that names a property of \<^verbatim>\<open>Object.prototype\<close> is not told apart from
  any other key.
\<close>

definition getJSApiTicket :: "env \<Rightarrow> options \<Rightarrow> jsval \<Rightarrow> world \<Rightarrow> (error + jsval) \<times> world" where
  "getJSApiTicket ev os type w =
     (let ty = (if truthy type then type else JStr ''jsapi'')
      in case (case getTicketToken (ToString ty) w of
                 None \<Rightarrow> None
               | Some ticketToken \<Rightarrow>
                   if Ticket_isValid (Date_now w) (ticket ticketToken) (ticketExpireTime ticketToken)
                   then Some (ticket ticketToken) else None) of
           Some t \<Rightarrow> (Inr t, w)
         | None \<Rightarrow>
             (case get ev os ''get_jsapi_ticket'' (JObj [(''type'', ty)]) JUndefined w of
                (Inl e, w1) \<Rightarrow> (Inl e, w1)
              | (Inr response, w1) \<Rightarrow>
                  (let tk = get_field response ''ticket'';
                       expires_in = get_field response ''expires_in''
                   in case ToNumber expires_in of
                        None \<Rightarrow> (Inl (Unmodelled ''expires_in is not a number''), w1)
                      | Some n \<Rightarrow>
                          (case expire_time (Date_now w1) n of
                             None \<Rightarrow> (Inl (Unmodelled ''expireTime is not a safe integer''), w1)
                           | Some t \<Rightarrow>
                               (Inr tk, saveTicketToken (ToString ty) (TicketToken tk t) w1)))))"

section \<open>The endpoint wrappers\<close>

text \<open>
  A wrapper reads properties of its argument. Reading a property of \<^verbatim>\<open>undefined\<close> or
  \<^verbatim>\<open>null\<close> throws a \<^verbatim>\<open>TypeError\<close>. A property whose name is computed
  (\<^verbatim>\<open>opts[opts.msgtype]\<close>) is also found on \<^verbatim>\<open>Object.prototype\<close>.
\<close>

definition nullish :: "jsval \<Rightarrow> bool" where
  "nullish v = (v = JUndefined \<or> v = JNull)"

definition Object_prototype :: obj where
  "Object_prototype =
     [(''constructor'', JFunction ''Object''),
      (''toString'', JFunction ''toString''),
      (''toLocaleString'', JFunction ''toLocaleString''),
      (''valueOf'', JFunction ''valueOf''),
      (''hasOwnProperty'', JFunction ''hasOwnProperty''),
      (''isPrototypeOf'', JFunction ''isPrototypeOf''),
      (''propertyIsEnumerable'', JFunction ''propertyIsEnumerable''),
      (''__defineGetter__'', JFunction ''__defineGetter__''),
      (''__defineSetter__'', JFunction ''__defineSetter__''),
      (''__lookupGetter__'', JFunction ''__lookupGetter__''),
      (''__lookupSetter__'', JFunction ''__lookupSetter__''),
      (''__proto__'', JObj [])]"

fun get_computed :: "jsval \<Rightarrow> string \<Rightarrow> jsval" where
  "get_computed (JObj ps) k =
     (if k \<in> set (map fst ps) then obj_get ps k else obj_get Object_prototype k)"
| "get_computed v k = JUndefined"

definition cannot_read :: "string \<Rightarrow> error" where
  "cannot_read k = TypeError (''Cannot read property '' @ k)"

subsection \<open>Message\<close>

definition send :: "env \<Rightarrow> options \<Rightarrow> jsval \<Rightarrow> world \<Rightarrow> (error + jsval) \<times> world" where
  "send ev os opts w =
     (if nullish opts then (Inl (cannot_read ''touser''), w)
      else if \<not> (truthy (get_field opts ''touser'') \<or> truthy (get_field opts ''toparty''))
      then (Inl (AssertionError ''options touser or toparty required''), w)
      else if \<not> truthy (get_field opts ''msgtype'')
      then (Inl (AssertionError ''options.msgtype required''), w)
      else if \<not> truthy (get_field opts ''agentid'')
      then (Inl (AssertionError ''options.agentid required''), w)
      else if \<not> truthy (get_computed opts (ToString (get_field opts ''msgtype'')))
      then (Inl (AssertionError
                   (''options.'' @ ToString (get_field opts ''msgtype'') @ '' required'')), w)
      else post ev os ''message/send'' opts JUndefined w)"

definition listMessageStatus :: "env \<Rightarrow> options \<Rightarrow> jsval \<Rightarrow> world \<Rightarrow> (error + jsval) \<times> world" where
  "listMessageStatus ev os messageId w =
     (if \<not> truthy messageId then (Inl (AssertionError ''messageId required''), w)
      else post ev os ''message/list_message_status'' (JObj [(''messageId'', messageId)])
             JUndefined w)"

definition sendMessage :: "env \<Rightarrow> options \<Rightarrow> jsval \<Rightarrow> world \<Rightarrow> (error + jsval) \<times> world" where
  "sendMessage ev os opts w =
     (if nullish opts then (Inl (cannot_read ''agent_id''), w)
      else if \<not> truthy (get_field opts ''agent_id'')
      then (Inl (AssertionError ''opts.agent_id required''), w)
      else if \<not> (truthy (get_field opts ''userid_list'') \<or> truthy (get_field opts ''dept_id_list'')
                  \<or> truthy (get_field opts ''to_all_user''))
      then (Inl (AssertionError
                   ''opts.userid_list or opts.dept_id_list or opts.to_all_user required''), w)
      else if \<not> truthy (get_field opts ''msg'')
      then (Inl (AssertionError ''opts.msg required''), w)
      else post ev os ''topapi/message/corpconversation/asyncsend_v2'' opts JUndefined w)"

definition getSendProgress :: "env \<Rightarrow> options \<Rightarrow> jsval \<Rightarrow> world \<Rightarrow> (error + jsval) \<times> world" where
  "getSendProgress ev os opts w =
     (if nullish opts then (Inl (cannot_read ''agent_id''), w)
      else if \<not> truthy (get_field opts ''agent_id'')
      then (Inl (AssertionError ''opts.agent_id required''), w)
      else if \<not> truthy (get_field opts ''task_id'')
      then (Inl (AssertionError ''opts.task_id required''), w)
      else post ev os ''topapi/message/corpconversation/getsendprogress'' opts JUndefined w)"

definition getSendResult :: "env \<Rightarrow> options \<Rightarrow> jsval \<Rightarrow> world \<Rightarrow> (error + jsval) \<times> world" where
  "getSendResult ev os opts w =
     (if nullish opts then (Inl (cannot_read ''agent_id''), w)
      else if \<not> truthy (get_field opts ''agent_id'')
      then (Inl (AssertionError ''opts.agent_id required''), w)
      else if \<not> truthy (get_field opts ''task_id'')
      then (Inl (AssertionError ''opts.task_id required''), w)
      else post ev os ''topapi/message/corpconversation/getsendresult'' opts JUndefined w)"

definition recallMessage :: "env \<Rightarrow> options \<Rightarrow> jsval \<Rightarrow> world \<Rightarrow> (error + jsval) \<times> world" where
  "recallMessage ev os opts w =
     (if nullish opts then (Inl (cannot_read ''agent_id''), w)
      else if \<not> truthy (get_field opts ''agent_id'')
      then (Inl (AssertionError ''opts.agent_id required''), w)
      else if \<not> truthy (get_field opts ''msg_task_id'')
      then (Inl (AssertionError ''opts.msg_task_id required''), w)
      else post ev os ''topapi/message/corpconversation/recall'' opts JUndefined w)"

subsection \<open>Callback\<close>

definition register_call_back :: "env \<Rightarrow> options \<Rightarrow> jsval \<Rightarrow> world \<Rightarrow> (error + jsval) \<times> world" where
  "register_call_back ev os opts w = get ev os ''call_back/register_call_back'' opts JUndefined w"

definition get_call_back :: "env \<Rightarrow> options \<Rightarrow> jsval \<Rightarrow> world \<Rightarrow> (error + jsval) \<times> world" where
  "get_call_back ev os opts w = get ev os ''call_back/get_call_back'' opts JUndefined w"

definition update_call_back :: "env \<Rightarrow> options \<Rightarrow> jsval \<Rightarrow> world \<Rightarrow> (error + jsval) \<times> world" where
  "update_call_back ev os opts w = get ev os ''call_back/update_call_back'' opts JUndefined w"

definition delete_call_back :: "env \<Rightarrow> options \<Rightarrow> jsval \<Rightarrow> world \<Rightarrow> (error + jsval) \<times> world" where
  "delete_call_back ev os opts w = get ev os ''call_back/delete_call_back'' opts JUndefined w"

section \<open>The request signer\<close>

subsection \<open>Node's \<^verbatim>\<open>url\<close> and \<^verbatim>\<open>querystring\<close>\<close>

text \<open>
  \<^verbatim>\<open>_normalizeUrl\<close> calls \<^verbatim>\<open>Url.parse(url, true)\<close> and \<^verbatim>\<open>Url.format\<close> of Node. The
  model follows their documented behaviour on the three parts the function touches: the
  fragment starts at the first \<open>#\<close>, the search string at the first \<open>?\<close> before it, and
  the query object is \<^verbatim>\<open>querystring.parse\<close> of the search string without its \<open>?\<close>.
  What stands before the search string (protocol, authority, path) is carried through as
  it is, which is what parsing and formatting give for a URL whose protocol and host
  are in lower case and whose path is not empty, such as \<^verbatim>\<open>https://a.com/p\<close>.

  \<^verbatim>\<open>querystring.parse\<close> splits at \<open>&\<close>, skips empty pieces, splits a piece at its first
  \<open>=\<close>, turns \<open>+\<close> into a space and decodes percent escapes (an escape that is not
  two hex digits stays as it is); a key that occurs again collects its values in an
  array. Its limit of 1000 pairs is not modelled, and decoded bytes are taken as they
  are, also where they are not UTF-8.
\<close>

definition hex_chars :: string where
  "hex_chars = ''0123456789abcdef''"

definition lower_hex :: "char \<Rightarrow> char" where
  "lower_hex c =
     (if c = CHR ''A'' then CHR ''a'' else if c = CHR ''B'' then CHR ''b''
      else if c = CHR ''C'' then CHR ''c'' else if c = CHR ''D'' then CHR ''d''
      else if c = CHR ''E'' then CHR ''e'' else if c = CHR ''F'' then CHR ''f'' else c)"

definition unhex :: "char \<Rightarrow> nat option" where
  "unhex c =
     (if lower_hex c \<in> set hex_chars
      then Some (length (takeWhile (\<lambda>d. d \<noteq> lower_hex c) hex_chars)) else None)"

fun unescape :: "string \<Rightarrow> string" where
  "unescape [] = []"
| "unescape [c] = [c]"
| "unescape [c, d] = [c, d]"
| "unescape (c # h1 # h2 # s) =
     (if c = CHR ''%'' then
        (case unhex h1 of
           None \<Rightarrow> c # unescape (h1 # h2 # s)
         | Some a \<Rightarrow>
             (case unhex h2 of
                None \<Rightarrow> c # unescape (h1 # h2 # s)
              | Some b \<Rightarrow> char_of (16 * a + b) # unescape s))
      else c # unescape (h1 # h2 # s))"

definition qs_unescape :: "string \<Rightarrow> string" where
  "qs_unescape s = unescape (map (\<lambda>c. if c = CHR ''+'' then CHR '' '' else c) s)"

fun split_on :: "char \<Rightarrow> string \<Rightarrow> string list" where
  "split_on sep [] = [[]]"
| "split_on sep (c # s) =
     (if c = sep then [] # split_on sep s
      else (case split_on sep s of
              [] \<Rightarrow> [[c]]
            | p # ps \<Rightarrow> (c # p) # ps))"

definition add_pair :: "string \<Rightarrow> string \<Rightarrow> obj \<Rightarrow> obj" where
  "add_pair k v ps =
     (if k \<in> set (map fst ps) then
        (case obj_get ps k of
           JArr vs \<Rightarrow> obj_set k (JArr (vs @ [JStr v])) ps
         | old \<Rightarrow> obj_set k (JArr [old, JStr v]) ps)
      else obj_set k (JStr v) ps)"

definition decoded_pairs :: "string \<Rightarrow> (string \<times> string) list" where
  "decoded_pairs qs =
     map (\<lambda>piece.
            let k = takeWhile (\<lambda>c. c \<noteq> CHR ''='') piece;
                v = drop (Suc (length k)) piece
            in (qs_unescape k, qs_unescape v))
         (filter (\<lambda>piece. piece \<noteq> []) (split_on CHR ''&'' qs))"

definition querystring_parse :: "string \<Rightarrow> obj" where
  "querystring_parse qs = fold (\<lambda>p ps. add_pair (fst p) (snd p) ps) (decoded_pairs qs) []"

record url_object =
  base :: string
  search :: string
  query :: obj
  hash :: string

definition Url_parse :: "string \<Rightarrow> url_object" where
  "Url_parse url =
     (let before_hash = takeWhile (\<lambda>c. c \<noteq> CHR ''#'') url;
          b = takeWhile (\<lambda>c. c \<noteq> CHR ''?'') before_hash;
          s = drop (length b) before_hash
      in \<lparr>base = b, search = s, query = querystring_parse (drop 1 s),
          hash = drop (length before_hash) url\<rparr>)"

text \<open>\<^verbatim>\<open>Url.format\<close> of an object whose \<^verbatim>\<open>hash\<close>, \<^verbatim>\<open>query\<close> and \<^verbatim>\<open>search\<close> have been
  deleted prints what is left: protocol, authority and path.\<close>

definition Url_format_deleted :: "url_object \<Rightarrow> string" where
  "Url_format_deleted u = base u"

subsection \<open>\<^verbatim>\<open>_normalizeUrl\<close> and \<^verbatim>\<open>getJSApiConfig\<close>\<close>

text \<open>
  In \<^verbatim>\<open>getJSApiConfig\<close> the two calls of \<^verbatim>\<open>Date.now()\<close> stand in one object literal and
  read the same clock value. \<^verbatim>\<open>Array.prototype.sort\<close> without a comparator orders strings
  by their code units, which on byte strings is the lexicographic order of the bytes.
\<close>

definition normalizeUrl :: "string \<Rightarrow> string" where
  "normalizeUrl url =
     (let originUrlObj = Url_parse url;
          queryStr = join ''&''
            (map (\<lambda>key. key @ ''='' @ ToString (obj_get (query originUrlObj) key))
               (map fst (query originUrlObj)))
      in Url_format_deleted originUrlObj @ (if queryStr \<noteq> [] then ''?'' @ queryStr else []))"

record jsapi_config =
  corpId :: jsval
  timeStamp :: jsval
  nonceStr :: jsval
  signature :: string

definition getJSApiConfig ::
  "env \<Rightarrow> options \<Rightarrow> string \<Rightarrow> jsval \<Rightarrow> world \<Rightarrow> (error + jsapi_config) \<times> world" where
  "getJSApiConfig ev os url opts w =
     (case getJSApiTicket ev os JUndefined w of
        (Inl e, w1) \<Rightarrow> (Inl e, w1)
      | (Inr tk, w1) \<Rightarrow>
          (let signObj = Object_assign
                 [(''jsapi_ticket'', tk),
                  (''noncestr'', JStr (''DingTalk#'' @ show_int (Date_now w1))),
                  (''timestamp'', JNum (Date_now w1)),
                  (''url'', JStr (normalizeUrl url))]
                 [opts];
               signContent = map (\<lambda>key. key @ ''='' @ ToString (obj_get signObj key))
                               (sort (map fst signObj));
               sig = sha1_hex ev (join ''&'' signContent)
           in (Inr \<lparr>corpId = corpid os,
                     timeStamp = obj_get signObj ''timestamp'',
                     nonceStr = obj_get signObj ''noncestr'',
                     signature = sig\<rparr>, w1)))"

section \<open>A client, a transport and a server to run the model on\<close>

text \<open>
  A configuration without proxy, a \<^verbatim>\<open>querystring.stringify\<close> that does not escape, a
  digest that is not SHA-1, and a server that answers every call after 5 ms with the
  same successful body. They only serve to run the definitions on concrete inputs.
\<close>

definition example_options :: options where
  "example_options =
     \<lparr>appkey = ''key'', appsecret = ''secret'', host = ''https://oapi.dingtalk.com'',
      proxy = None, sso = False, corpid = JStr ''corp'', requestOpts = JUndefined\<rparr>"

definition example_body :: obj where
  "example_body =
     [(''errcode'', JNum 0), (''access_token'', JStr ''fresh''), (''expires_in'', JNum 7200),
      (''ticket'', JStr ''T'')]"

definition example_env :: env where
  "example_env =
     \<lparr>qs_stringify = (\<lambda>v. join ''&'' (map (\<lambda>p. fst p @ ''='' @ ToString (snd p)) (own_entries v))),
      sha1_hex = (\<lambda>s. ''digest of '' @ s),
      urllib_request = (\<lambda>calls url ro. (Resolved [(''data'', JObj example_body)], 5))\<rparr>"

definition world_cached :: world where
  "world_cached =
     \<lparr>clock = 1000, store = Some (Token (JStr ''cached'') (Fin 5000)),
      ticketStore = (\<lambda>type. None), sent = []\<rparr>"

definition world_empty :: world where
  "world_empty = \<lparr>clock = 1000, store = None, ticketStore = (\<lambda>type. None), sent = []\<rparr>"

definition world_expired :: world where
  "world_expired =
     \<lparr>clock = 1000, store = Some (Token (JStr ''old'') (Fin 500)),
      ticketStore = (\<lambda>type. if type = ''jsapi'' then Some (TicketToken (JStr ''oldT'') (Fin 900)) else None),
      sent = []\<rparr>"

text \<open>Three more servers: one that refuses with status 1, one whose body carries no
  status, and one that answers without a body.\<close>

definition refusing_env :: env where
  "refusing_env =
     example_env\<lparr>urllib_request := (\<lambda>calls url ro.
        (Resolved [(''data'', JObj [(''errcode'', JNum 1), (''errmsg'', JStr ''refused'')])], 5))\<rparr>"

definition bare_env :: env where
  "bare_env =
     example_env\<lparr>urllib_request := (\<lambda>calls url ro.
        (Resolved [(''data'', JObj [(''access_token'', JStr ''fresh'')])], 5))\<rparr>"

definition silent_env :: env where
  "silent_env =
     example_env\<lparr>urllib_request := (\<lambda>calls url ro.
        (Resolved [(''data'', JNull), (''status'', JNum 204)], 5))\<rparr>"

section \<open>Facts about objects and the request primitive\<close>

lemma array_index_nondigit: "\<not> is_digit (hd k) \<Longrightarrow> array_index k = None"
  by (cases k) (auto simp: array_index_def)

lemma token_opts:
  "Object_assign [(''params'', d)] [JObj [(''ignoreAccessToken'', JBool True)]]
     = [(''params'', d), (''ignoreAccessToken'', JBool True)]"
  by (simp add: Object_assign_def obj_set_def array_index_nondigit is_digit_def digit_chars_def)

lemma obj_get_merge_opts:
  "obj_get (merge_opts os (JObj ps)) k =
     (case map_of (rev ps) k of Some v \<Rightarrow> v
      | None \<Rightarrow> (case map_of (rev (own_entries (requestOpts os))) k of Some v \<Rightarrow> v
          | None \<Rightarrow> if k = ''dataType'' then JStr ''json'' else JUndefined))"
  by (simp add: merge_opts_def Object_assign_def obj_get_def map_of_fold_obj_set map_add_def
        split: option.splits)

lemmas object_simps = Object_assign_def obj_set_def obj_get_def obj_delete_def
  array_index_nondigit is_digit_def digit_chars_def merge_opts_def strip_opts_def

lemma get_ignoring:
  assumes "api \<noteq> []"
  shows "get ev os api (JObj d) (JObj [(''ignoreAccessToken'', JBool True)]) w =
     send_request ev os (host os @ ''/'' @ api)
       (merge_opts os (JObj [(''params'', JObj d), (''ignoreAccessToken'', JBool True)]))
       (JObj d) w"
  using assms
  by (simp add: get.simps request.simps token_opts obj_get_merge_opts params_of_def Let_def)

lemma send_request_cases:
  "send_request ev os url ro params w =
     (case proxy_url os (url @ ''?'' @ qs_stringify ev params) of
        Inl e \<Rightarrow> (Inl e, w)
      | Inr u \<Rightarrow>
          (unwrap u (fst (urllib_request ev (sent w) u (strip_opts ro))),
           w\<lparr>clock := clock w + int (snd (urllib_request ev (sent w) u (strip_opts ro))),
              sent := sent w @ [(u, strip_opts ro)]\<rparr>))"
  by (simp add: send_request_def urllib_call_def Let_def split: sum.splits)

lemma unwrap_Inr:
  "unwrap u out = Inr v \<longleftrightarrow>
     (\<exists>resp. out = Resolved resp \<and>
        (if truthy (obj_get resp ''data'')
         then get_field (obj_get resp ''data'') ''errcode'' = JNum 0 \<and> v = obj_get resp ''data''
         else v = JObj resp))"
  by (auto simp: unwrap_def Let_def split: outcome.splits)


text \<open>The URL path, the data and the merged options of the token request.\<close>

definition token_api :: "options \<Rightarrow> string" where
  "token_api os = (if sso os then ''sso/gettoken'' else ''gettoken'')"

definition token_data :: "options \<Rightarrow> jsval" where
  "token_data os =
     (if sso os
      then JObj [(''corpid'', JStr (appkey os)), (''corpsecret'', JStr (appsecret os))]
      else JObj [(''appkey'', JStr (appkey os)), (''appsecret'', JStr (appsecret os))])"

definition token_opts :: "options \<Rightarrow> obj" where
  "token_opts os =
     merge_opts os (JObj [(''params'', token_data os), (''ignoreAccessToken'', JBool True)])"

text \<open>When a stored credential must not be handed out: it is absent, or the current
  time has reached its \<open>expireTime\<close>.\<close>

definition token_absent_or_expired :: "world \<Rightarrow> bool" where
  "token_absent_or_expired w =
     (case store w of
        None \<Rightarrow> True
      | Some t \<Rightarrow> (case expireTime t of Fin e \<Rightarrow> e \<le> clock w | NaN \<Rightarrow> False))"

definition ticket_absent_or_expired :: "world \<Rightarrow> string \<Rightarrow> bool" where
  "ticket_absent_or_expired w type =
     (case ticketStore w type of
        None \<Rightarrow> True
      | Some t \<Rightarrow> (case ticketExpireTime t of Fin e \<Rightarrow> e \<le> clock w | NaN \<Rightarrow> False))"

section \<open>The credential cache\<close>

lemma getAccessToken_valid:
  assumes "store w = Some t" and "expireTime t = Fin e" and "clock w < e"
  shows "getAccessToken ev os w = (Inr (accessToken t), w)"
  using assms
  by (simp add: getAccessToken.simps getToken_def AccessToken_isValid_def Date_now_def)

text \<open>
  C2. A stored token whose \<open>expireTime\<close> lies strictly after the current time is
  returned as it is: \<open>getAccessToken\<close> yields the stored value and leaves the whole
  state as it was, so no call reaches the transport (the log \<open>sent\<close> is unchanged)
  and the store is not written.
\<close>

theorem getAccessToken_cached:
  assumes "store w = Some t" and "expireTime t = Fin e" and "clock w < e"
  shows "getAccessToken ev os w = (Inr (accessToken t), w)"
  using assms by (rule getAccessToken_valid)

theorem getAccessToken_cached_witness:
  "store world_cached = Some (Token (JStr ''cached'') (Fin 5000))
   \<and> clock world_cached < 5000
   \<and> getAccessToken example_env example_options world_cached = (Inr (JStr ''cached''), world_cached)"
  using getAccessToken_cached [of world_cached "Token (JStr ''cached'') (Fin 5000)" 5000
          example_env example_options]
  by (simp add: world_cached_def)

lemma getAccessToken_stale:
  assumes "\<not> (\<exists>t e. store w = Some t \<and> expireTime t = Fin e \<and> clock w < e)"
  shows "getAccessToken ev os w =
     (case send_request ev os (host os @ ''/'' @ token_api os) (token_opts os) (token_data os) w of
        (Inl e, w1) \<Rightarrow> (Inl e, w1)
      | (Inr response, w1) \<Rightarrow>
          (case ToNumber (get_field response ''expires_in'') of
             None \<Rightarrow> (Inl (Unmodelled ''expires_in is not a number''), w1)
           | Some n \<Rightarrow>
               (case expire_time (Date_now w1) n of
                  None \<Rightarrow> (Inl (Unmodelled ''expireTime is not a safe integer''), w1)
                | Some t \<Rightarrow>
                    (Inr (get_field response ''access_token''),
                     saveToken (Token (get_field response ''access_token'') t) w1))))"
proof -
  have "(case getToken w of None \<Rightarrow> None
         | Some token \<Rightarrow>
             if AccessToken_isValid (Date_now w) (accessToken token) (expireTime token)
             then Some (accessToken token) else None) = None"
    using assms
    by (auto simp: getToken_def AccessToken_isValid_def Date_now_def
          split: option.splits jsnum.splits)
  then show ?thesis
    by (simp add: getAccessToken.simps get_ignoring Let_def token_api_def token_data_def
          token_opts_def split: prod.splits sum.splits option.splits)
qed

lemma stale_not_valid:
  assumes "store w = None \<or> (\<exists>t e. store w = Some t \<and> expireTime t = Fin e \<and> e \<le> clock w)"
  shows "\<not> (\<exists>t e. store w = Some t \<and> expireTime t = Fin e \<and> clock w < e)"
  using assms by auto

lemma getAccessToken_fetch:
  assumes stale: "\<not> (\<exists>t e. store w = Some t \<and> expireTime t = Fin e \<and> clock w < e)"
    and url: "proxy_url os (host os @ ''/'' @ token_api os @ ''?'' @ qs_stringify ev (token_data os))
                = Inr u"
  shows "getAccessToken ev os w =
     (case unwrap u (fst (urllib_request ev (sent w) u (strip_opts (token_opts os)))) of
        Inl e \<Rightarrow> (Inl e, w\<lparr>clock := clock w + int (snd (urllib_request ev (sent w) u (strip_opts (token_opts os)))),
                           sent := sent w @ [(u, strip_opts (token_opts os))]\<rparr>)
      | Inr response \<Rightarrow>
          (case ToNumber (get_field response ''expires_in'') of
             None \<Rightarrow> (Inl (Unmodelled ''expires_in is not a number''),
                       w\<lparr>clock := clock w + int (snd (urllib_request ev (sent w) u (strip_opts (token_opts os)))),
                         sent := sent w @ [(u, strip_opts (token_opts os))]\<rparr>)
           | Some n \<Rightarrow>
               (case expire_time (clock w + int (snd (urllib_request ev (sent w) u (strip_opts (token_opts os))))) n of
                  None \<Rightarrow> (Inl (Unmodelled ''expireTime is not a safe integer''),
                       w\<lparr>clock := clock w + int (snd (urllib_request ev (sent w) u (strip_opts (token_opts os)))),
                         sent := sent w @ [(u, strip_opts (token_opts os))]\<rparr>)
                | Some t \<Rightarrow>
                    (Inr (get_field response ''access_token''),
                     w\<lparr>clock := clock w + int (snd (urllib_request ev (sent w) u (strip_opts (token_opts os)))),
                       store := Some (Token (get_field response ''access_token'') t),
                       sent := sent w @ [(u, strip_opts (token_opts os))]\<rparr>))))"
  using url
  by (simp add: getAccessToken_stale [OF stale] send_request_cases saveToken_def Date_now_def
        split: sum.splits option.splits)

text \<open>
  C3. When the stored token is absent or its \<open>expireTime\<close> is not after the current
  time, \<open>getAccessToken\<close> sends exactly one request: the log grows by one call, to
  \<^verbatim>\<open>sso/gettoken\<close> with \<^verbatim>\<open>corpid\<close> and \<^verbatim>\<open>corpsecret\<close> when the \<^verbatim>\<open>sso\<close> option is set and to
  \<^verbatim>\<open>gettoken\<close> with \<^verbatim>\<open>appkey\<close> and \<^verbatim>\<open>appsecret\<close> otherwise. When the server answers
  that call after \<open>d\<close> milliseconds with status 0 and a lifetime \<^verbatim>\<open>expires_in\<close>, the
  token of the answer is returned and saved with the expiry time
  \<open>(clock + d) + (expires_in - 10) * 1000\<close>, the clock reading when the answer arrived
  plus the lifetime less ten seconds. The numbers are those double precision computes
  exactly: the clock reading, the lifetime, the product and the sum are safe integers.
\<close>

theorem getAccessToken_refresh:
  assumes stale: "store w = None \<or> (\<exists>t e. store w = Some t \<and> expireTime t = Fin e \<and> e \<le> clock w)"
    and data: "data = (if sso os
                  then JObj [(''corpid'', JStr (appkey os)), (''corpsecret'', JStr (appsecret os))]
                  else JObj [(''appkey'', JStr (appkey os)), (''appsecret'', JStr (appsecret os))])"
    and url: "proxy_url os (host os @ ''/'' @ (if sso os then ''sso/gettoken'' else ''gettoken'')
                 @ ''?'' @ qs_stringify ev data) = Inr u"
    and ro: "ro = strip_opts (merge_opts os
                 (JObj [(''params'', data), (''ignoreAccessToken'', JBool True)]))"
  shows "sent (snd (getAccessToken ev os w)) = sent w @ [(u, ro)]
     \<and> (\<forall>resp d body lifetime.
          urllib_request ev (sent w) u ro = (Resolved resp, d)
          \<and> obj_get resp ''data'' = JObj body
          \<and> obj_get body ''errcode'' = JNum 0
          \<and> obj_get body ''expires_in'' = JNum lifetime
          \<and> safe_integer (clock w + int d) \<and> safe_integer lifetime
          \<and> safe_integer (lifetime - 10) \<and> safe_integer ((lifetime - 10) * 1000)
          \<and> safe_integer (clock w + int d + (lifetime - 10) * 1000)
          \<longrightarrow> getAccessToken ev os w =
                (Inr (obj_get body ''access_token''),
                 w\<lparr>clock := clock w + int d,
                   store := Some (Token (obj_get body ''access_token'')
                                    (Fin (clock w + int d + (lifetime - 10) * 1000))),
                   sent := sent w @ [(u, ro)]\<rparr>))"
proof -
  have u: "proxy_url os (host os @ ''/'' @ token_api os @ ''?'' @ qs_stringify ev (token_data os))
                = Inr u"
    using url data by (simp add: token_api_def token_data_def)
  have r: "ro = strip_opts (token_opts os)"
    using ro data by (simp add: token_opts_def token_data_def)
  note f = getAccessToken_fetch [OF stale_not_valid [OF stale] u, folded r]
  show ?thesis
    by (auto simp: f unwrap_def expire_time_def split: sum.splits option.splits)
qed

theorem getAccessToken_refresh_witness:
  "store world_empty = None
   \<and> safe_integer (clock world_empty + 5) \<and> safe_integer ((7200 - 10) * 1000)
   \<and> safe_integer (clock world_empty + 5 + (7200 - 10) * 1000)
   \<and> getAccessToken example_env example_options world_empty =
      (Inr (JStr ''fresh''),
       \<lparr>clock = 1005, store = Some (Token (JStr ''fresh'') (Fin 7191005)),
        ticketStore = (\<lambda>type. None),
        sent = [(''https://oapi.dingtalk.com/gettoken?appkey=key&appsecret=secret'',
                 [(''dataType'', JStr ''json'')])]\<rparr>)"
proof -
  have s: "store world_empty = None \<or>
      (\<exists>t e. store world_empty = Some t \<and> expireTime t = Fin e \<and> e \<le> clock world_empty)"
    by (simp add: world_empty_def)
  have u: "proxy_url example_options
      (host example_options @ ''/'' @ (if sso example_options then ''sso/gettoken'' else ''gettoken'')
        @ ''?'' @ qs_stringify example_env
           (if sso example_options
            then JObj [(''corpid'', JStr (appkey example_options)),
                       (''corpsecret'', JStr (appsecret example_options))]
            else JObj [(''appkey'', JStr (appkey example_options)),
                       (''appsecret'', JStr (appsecret example_options))]))
      = Inr ''https://oapi.dingtalk.com/gettoken?appkey=key&appsecret=secret''"
    by (simp add: proxy_url_def example_options_def example_env_def)
  show ?thesis
    using getAccessToken_refresh [OF s refl u refl]
    by (simp add: world_empty_def example_env_def example_options_def example_body_def
          object_simps safe_integer_def)
qed

lemma send_request_result:
  assumes "send_request ev os url ro params w = (r, w')"
  shows "(w' = w \<and> (\<exists>e. r = Inl e)) \<or>
     (\<exists>u. sent w' = sent w @ [(u, strip_opts ro)]
        \<and> unwrap u (fst (urllib_request ev (sent w) u (strip_opts ro))) = r
        \<and> store w' = store w \<and> ticketStore w' = ticketStore w)"
  using assms by (auto simp: send_request_cases split: sum.splits)

lemma token_absent_or_expired_iff:
  "token_absent_or_expired w \<longleftrightarrow>
     store w = None \<or> (\<exists>t e. store w = Some t \<and> expireTime t = Fin e \<and> e \<le> clock w)"
  by (auto simp: token_absent_or_expired_def split: option.splits jsnum.splits)

lemma getAccessToken_fresh_value:
  assumes "token_absent_or_expired w" and "getAccessToken ev os w = (Inr v, w')"
  shows "\<exists>u ro body.
           sent w' = sent w @ [(u, ro)]
         \<and> unwrap u (fst (urllib_request ev (sent w) u ro)) = Inr body
         \<and> v = get_field body ''access_token''
         \<and> (\<exists>e. store w' = Some (Token v e))"
proof -
  note st = assms(1) [unfolded token_absent_or_expired_iff]
  obtain r w1 where sr:
    "send_request ev os (host os @ ''/'' @ token_api os) (token_opts os) (token_data os) w = (r, w1)"
    by (metis surj_pair)
  from assms(2) obtain body t where r: "r = Inr body"
    and v: "v = get_field body ''access_token''"
    and w': "w' = saveToken (Token v t) w1"
    unfolding getAccessToken_stale [OF stale_not_valid [OF st]] sr
    by (auto split: sum.splits option.splits)
  from send_request_result [OF sr] r obtain u where
    s1: "sent w1 = sent w @ [(u, strip_opts (token_opts os))]"
    and b: "unwrap u (fst (urllib_request ev (sent w) u (strip_opts (token_opts os)))) = Inr body"
    by auto
  have "sent w' = sent w @ [(u, strip_opts (token_opts os))]" and "store w' = Some (Token v t)"
    using s1 w' by (simp_all add: saveToken_def)
  with b v show ?thesis by blast
qed

lemma getAccessToken_sent:
  "prefix (sent w) (sent (snd (getAccessToken ev os w)))"
proof (cases "\<exists>t e. store w = Some t \<and> expireTime t = Fin e \<and> clock w < e")
  case False
  show ?thesis
    unfolding getAccessToken_stale [OF False]
    by (auto simp: send_request_cases saveToken_def split: sum.splits option.splits prod.splits)
next
  case True
  then have "snd (getAccessToken ev os w) = w"
    by (auto simp: getAccessToken_valid)
  then show ?thesis by simp
qed

lemma getAccessToken_ticketStore:
  "ticketStore (snd (getAccessToken ev os w)) = ticketStore w"
proof (cases "\<exists>t e. store w = Some t \<and> expireTime t = Fin e \<and> clock w < e")
  case False
  show ?thesis
    unfolding getAccessToken_stale [OF False]
    by (auto simp: send_request_cases saveToken_def split: sum.splits option.splits prod.splits)
next
  case True
  then have "snd (getAccessToken ev os w) = w"
    by (auto simp: getAccessToken_valid)
  then show ?thesis by simp
qed

lemma request_value:
  assumes "request ev os url opts w = (Inr v, w')"
  shows "\<exists>calls u ro.
           sent w' = calls @ [(u, ro)] \<and> prefix (sent w) calls
         \<and> unwrap u (fst (urllib_request ev calls u ro)) = Inr v
         \<and> ticketStore w' = ticketStore w"
proof (cases "truthy (obj_get (merge_opts os opts) ''ignoreAccessToken'')")
  case True
  then have "send_request ev os url (merge_opts os opts) (params_of (merge_opts os opts)) w = (Inr v, w')"
    using assms by (simp add: request.simps Let_def)
  from send_request_result [OF this] show ?thesis by auto
next
  case False
  define tr where "tr = (if \<not> truthy (obj_get (merge_opts os opts) ''accessToken'')
                  then getAccessToken ev os w
                  else (Inr (obj_get (merge_opts os opts) ''accessToken''), w))"
  have pre: "prefix (sent w) (sent (snd tr))" and ts: "ticketStore (snd tr) = ticketStore w"
    by (simp_all add: tr_def getAccessToken_sent getAccessToken_ticketStore)
  from assms False obtain tok params' where
    "send_request ev os url (merge_opts os opts) params' (snd tr) = (Inr v, w')"
    by (auto simp: request.simps Let_def tr_def [symmetric] split: prod.splits sum.splits)
  from send_request_result [OF this] obtain u where
    "sent w' = sent (snd tr) @ [(u, strip_opts (merge_opts os opts))]"
    "unwrap u (fst (urllib_request ev (sent (snd tr)) u (strip_opts (merge_opts os opts)))) = Inr v"
    "ticketStore w' = ticketStore (snd tr)"
    by auto
  with pre ts show ?thesis by (metis)
qed


lemma getJSApiTicket_fresh_value:
  assumes "ticket_absent_or_expired w (ToString (if truthy type then type else JStr ''jsapi''))"
    and "getJSApiTicket ev os type w = (Inr v, w')"
  shows "\<exists>calls u ro body.
           sent w' = calls @ [(u, ro)] \<and> prefix (sent w) calls
         \<and> unwrap u (fst (urllib_request ev calls u ro)) = Inr body
         \<and> v = get_field body ''ticket''
         \<and> (\<exists>e. ticketStore w' (ToString (if truthy type then type else JStr ''jsapi''))
                   = Some (TicketToken v e))"
proof -
  define ty where "ty = (if truthy type then type else JStr ''jsapi'')"
  have none: "(case getTicketToken (ToString ty) w of
                 None \<Rightarrow> None
               | Some ticketToken \<Rightarrow>
                   if Ticket_isValid (Date_now w) (ticket ticketToken) (ticketExpireTime ticketToken)
                   then Some (ticket ticketToken) else None) = None"
    using assms(1) [folded ty_def]
    by (auto simp: ticket_absent_or_expired_def getTicketToken_def Ticket_isValid_def
          Date_now_def split: option.splits jsnum.splits)
  obtain r w1 where g: "get ev os ''get_jsapi_ticket'' (JObj [(''type'', ty)]) JUndefined w = (r, w1)"
    by (metis surj_pair)
  from assms(2) obtain body t where r: "r = Inr body" and v: "v = get_field body ''ticket''"
    and w': "w' = saveTicketToken (ToString ty) (TicketToken v t) w1"
    unfolding getJSApiTicket_def Let_def ty_def [symmetric] none g
    by (auto split: sum.splits option.splits)
  from g r have "request ev os (host os @ ''/'' @ ''get_jsapi_ticket'')
      (JObj (Object_assign [(''params'', JObj [(''type'', ty)])] [JUndefined])) w = (Inr body, w1)"
    by (simp add: get.simps)
  from request_value [OF this] obtain calls u ro where
    c: "sent w1 = calls @ [(u, ro)]" "prefix (sent w) calls"
       "unwrap u (fst (urllib_request ev calls u ro)) = Inr body"
    by blast
  have "sent w' = calls @ [(u, ro)]"
    and "ticketStore w' (ToString ty) = Some (TicketToken v t)"
    using c(1) w' by (simp_all add: saveTicketToken_def)
  with c(2,3) v show ?thesis unfolding ty_def by blast
qed

text \<open>
  C1. A credential that is absent from the store, or whose \<open>expireTime\<close> the current
  time has reached, is not what the caller gets. Whenever \<open>getAccessToken\<close> returns a
  value in that state, it has sent one request, the value is the \<^verbatim>\<open>access_token\<close> of
  what the request primitive made of the answer to it, and the store holds that value.
  Whenever \<open>getJSApiTicket\<close> returns a value in that state, the last request it sent
  was answered with the \<^verbatim>\<open>ticket\<close> it returns, and the ticket store holds that value under
  the type (\<^verbatim>\<open>jsapi\<close> when none is given).
\<close>

theorem expired_credential_refreshed:
  "(token_absent_or_expired w \<and> getAccessToken ev os w = (Inr v, w') \<longrightarrow>
      (\<exists>u ro body.
           sent w' = sent w @ [(u, ro)]
         \<and> unwrap u (fst (urllib_request ev (sent w) u ro)) = Inr body
         \<and> v = get_field body ''access_token''
         \<and> (\<exists>e. store w' = Some (Token v e))))
   \<and> (ticket_absent_or_expired w (ToString (if truthy type then type else JStr ''jsapi''))
        \<and> getJSApiTicket ev os type w = (Inr v, w') \<longrightarrow>
      (\<exists>calls u ro body.
           sent w' = calls @ [(u, ro)] \<and> prefix (sent w) calls
         \<and> unwrap u (fst (urllib_request ev calls u ro)) = Inr body
         \<and> v = get_field body ''ticket''
         \<and> (\<exists>e. ticketStore w' (ToString (if truthy type then type else JStr ''jsapi''))
                   = Some (TicketToken v e))))"
  using getAccessToken_fresh_value getJSApiTicket_fresh_value by blast

lemma getJSApiTicket_example:
  "fst (getJSApiTicket example_env example_options JUndefined world_expired) = Inr (JStr ''T'')"
  by (simp add: getJSApiTicket_def getTicketToken_def saveTicketToken_def Ticket_isValid_def
        getAccessToken.simps get.simps request.simps send_request_def urllib_call_def
        unwrap_def proxy_url_def params_of_def getToken_def saveToken_def AccessToken_isValid_def
        Date_now_def expire_time_def safe_integer_def world_expired_def example_env_def example_options_def
        example_body_def object_simps Let_def)

lemma getAccessToken_example: "getAccessToken example_env example_options world_expired =
   (Inr (JStr ''fresh''),
       \<lparr>clock = 1005, store = Some (Token (JStr ''fresh'') (Fin 7191005)),
        ticketStore = (\<lambda>type. if type = ''jsapi'' then Some (TicketToken (JStr ''oldT'') (Fin 900)) else None),
        sent = [(''https://oapi.dingtalk.com/gettoken?appkey=key&appsecret=secret'',
                 [(''dataType'', JStr ''json'')])]\<rparr>)"
  by (simp add: getAccessToken.simps get.simps request.simps send_request_def urllib_call_def
        unwrap_def proxy_url_def params_of_def getToken_def saveToken_def AccessToken_isValid_def
        Date_now_def expire_time_def safe_integer_def world_expired_def example_env_def example_options_def
        example_body_def object_simps Let_def)


theorem expired_credential_refreshed_witness:
  "token_absent_or_expired world_expired
   \<and> ticket_absent_or_expired world_expired ''jsapi''
   \<and> fst (getAccessToken example_env example_options world_expired) = Inr (JStr ''fresh'')
   \<and> (\<exists>u ro body.
         sent (snd (getAccessToken example_env example_options world_expired)) = [(u, ro)]
       \<and> unwrap u (fst (urllib_request example_env [] u ro)) = Inr body
       \<and> JStr ''fresh'' = get_field body ''access_token'')
   \<and> fst (getJSApiTicket example_env example_options JUndefined world_expired) = Inr (JStr ''T'')
   \<and> (\<exists>calls u ro body.
         sent (snd (getJSApiTicket example_env example_options JUndefined world_expired))
           = calls @ [(u, ro)]
       \<and> unwrap u (fst (urllib_request example_env calls u ro)) = Inr body
       \<and> JStr ''T'' = get_field body ''ticket'')"
proof -
  have h1: "token_absent_or_expired world_expired"
    by (simp add: token_absent_or_expired_def world_expired_def)
  have h2: "ticket_absent_or_expired world_expired
              (ToString (if truthy JUndefined then JUndefined else JStr ''jsapi''))"
    by (simp add: ticket_absent_or_expired_def world_expired_def)
  have e1: "getAccessToken example_env example_options world_expired =
              (Inr (JStr ''fresh''), snd (getAccessToken example_env example_options world_expired))"
    by (simp add: getAccessToken_example)
  have e2: "getJSApiTicket example_env example_options JUndefined world_expired =
              (Inr (JStr ''T''), snd (getJSApiTicket example_env example_options JUndefined world_expired))"
    using getJSApiTicket_example by (metis prod.collapse)
  have s0: "sent world_expired = []" by (simp add: world_expired_def)
  from expired_credential_refreshed [THEN conjunct1, rule_format, OF conjI [OF h1 e1]]
  have c1: "\<exists>u ro body.
         sent (snd (getAccessToken example_env example_options world_expired)) = [(u, ro)]
       \<and> unwrap u (fst (urllib_request example_env [] u ro)) = Inr body
       \<and> JStr ''fresh'' = get_field body ''access_token''"
    unfolding s0 by auto
  from expired_credential_refreshed [THEN conjunct2, rule_format, OF conjI [OF h2 e2]]
  have c2: "\<exists>calls u ro body.
         sent (snd (getJSApiTicket example_env example_options JUndefined world_expired))
           = calls @ [(u, ro)]
       \<and> unwrap u (fst (urllib_request example_env calls u ro)) = Inr body
       \<and> JStr ''T'' = get_field body ''ticket''"
    by blast
  from h1 h2 c1 c2 show ?thesis
    by (simp add: getAccessToken_example getJSApiTicket_example)
qed

section \<open>The request primitive\<close>

text \<open>How an error of the last answered call shows in the result.\<close>

definition error_kept :: "env \<Rightarrow> world \<Rightarrow> (error + jsval) \<times> world \<Rightarrow> bool" where
  "error_kept ev w rw =
     (sent (snd rw) = sent w \<or>
      (\<exists>calls u ro. sent (snd rw) = calls @ [(u, ro)] \<and> prefix (sent w) calls
         \<and> (\<forall>e. unwrap u (fst (urllib_request ev calls u ro)) = Inl e \<longrightarrow> fst rw = Inl e)))"

lemma send_request_error_kept:
  "error_kept ev w (send_request ev os url ro params w)"
  by (auto simp: error_kept_def send_request_cases split: sum.splits)

lemma error_kept_trans:
  assumes "prefix (sent w) (sent w1)" and "error_kept ev w1 rw" and "sent (snd rw) \<noteq> sent w1"
  shows "error_kept ev w rw"
  using assms unfolding error_kept_def by (meson prefix_order.trans)

lemma getAccessToken_error_kept:
  "error_kept ev w (getAccessToken ev os w)"
proof (cases "\<exists>t e. store w = Some t \<and> expireTime t = Fin e \<and> clock w < e")
  case True
  then show ?thesis by (auto simp: getAccessToken_valid error_kept_def)
next
  case False
  obtain r w1 where sr:
    "send_request ev os (host os @ ''/'' @ token_api os) (token_opts os) (token_data os) w = (r, w1)"
    by (metis surj_pair)
  from send_request_result [OF sr] show ?thesis
    unfolding getAccessToken_stale [OF False] sr
    by (auto simp: error_kept_def saveToken_def split: sum.splits option.splits)
qed

lemma getAccessToken_Inr_last:
  assumes "getAccessToken ev os w = (Inr v, w1)"
  shows "sent w1 = sent w \<or>
     (\<exists>u ro body. sent w1 = sent w @ [(u, ro)]
        \<and> unwrap u (fst (urllib_request ev (sent w) u ro)) = Inr body)"
proof (cases "\<exists>t e. store w = Some t \<and> expireTime t = Fin e \<and> clock w < e")
  case True
  then show ?thesis using assms by (auto simp: getAccessToken_valid)
next
  case False
  obtain r w0 where sr:
    "send_request ev os (host os @ ''/'' @ token_api os) (token_opts os) (token_data os) w = (r, w0)"
    by (metis surj_pair)
  from send_request_result [OF sr] assms show ?thesis
    unfolding getAccessToken_stale [OF False] sr
    by (auto simp: saveToken_def split: sum.splits option.splits)
qed

lemma request_error_kept:
  "error_kept ev w (request ev os url opts w)"
proof (cases "truthy (obj_get (merge_opts os opts) ''ignoreAccessToken'')")
  case True
  then show ?thesis by (simp add: request.simps Let_def send_request_error_kept)
next
  case ign: False
  define ro where "ro = merge_opts os opts"
  show ?thesis
  proof (cases "truthy (obj_get ro ''accessToken'')")
    case True
    show ?thesis
    proof (cases "set_access_token (params_of ro) (obj_get ro ''accessToken'')")
      case (Inl e)
      then have "request ev os url opts w = (Inl e, w)"
        using ign True by (simp add: request.simps Let_def ro_def [symmetric])
      then show ?thesis by (simp add: error_kept_def)
    next
      case (Inr params')
      then have "request ev os url opts w = send_request ev os url ro params' w"
        using ign True by (simp add: request.simps Let_def ro_def [symmetric])
      then show ?thesis by (simp add: send_request_error_kept)
    qed
  next
    case False
    obtain r1 w1 where g: "getAccessToken ev os w = (r1, w1)" by (metis surj_pair)
    show ?thesis
    proof (cases r1)
      case (Inl e)
      then have "request ev os url opts w = (Inl e, w1)"
        using ign False g by (simp add: request.simps Let_def ro_def [symmetric])
      then show ?thesis using getAccessToken_error_kept [of ev w os] g Inl by simp
    next
      case (Inr tok)
      note last = getAccessToken_Inr_last [OF g [unfolded Inr]]
      have pre: "prefix (sent w) (sent w1)" using getAccessToken_sent [of w ev os] g by simp
      show ?thesis
      proof (cases "set_access_token (params_of ro) tok")
        case (Inl e)
        then have rq: "request ev os url opts w = (Inl e, w1)"
          using ign False g Inr by (simp add: request.simps Let_def ro_def [symmetric])
        from last show ?thesis unfolding rq error_kept_def by auto
      next
        case (Inr params')
        then have rq: "request ev os url opts w = send_request ev os url ro params' w1"
          using ign False g \<open>r1 = Inr tok\<close> by (simp add: request.simps Let_def ro_def [symmetric])
        show ?thesis
        proof (cases "sent (snd (send_request ev os url ro params' w1)) = sent w1")
          case True
          from last True show ?thesis unfolding rq error_kept_def by auto
        next
          case False
          from error_kept_trans [OF pre send_request_error_kept False]
          show ?thesis unfolding rq .
        qed
      qed
    qed
  qed
qed

lemma request_last_error:
  assumes "request ev os url opts w = (r, w')"
    and "sent w' = calls @ [(u, ro)]" and "prefix (sent w) calls"
    and "unwrap u (fst (urllib_request ev calls u ro)) = Inl e"
  shows "r = Inl e"
proof -
  have "sent w' \<noteq> sent w"
    using assms(2,3) by (auto simp: prefix_def)
  with request_error_kept [of ev w os url opts] assms show ?thesis
    by (auto simp: error_kept_def)
qed

lemma request_ignoring:
  assumes "ignores_token os opts"
  shows "request ev os url opts w =
     send_request ev os url (merge_opts os opts) (params_of (merge_opts os opts)) w"
  using assms by (simp add: request.simps ignores_token_def Let_def)


lemma unwrap_status:
  assumes "obj_get resp ''data'' = JObj body" and "obj_get body ''errcode'' = JNum n"
  shows "unwrap u (Resolved resp) =
           (if n \<noteq> 0 then Inl (DingTalkClientResponseError u (JNum n) (JObj body))
            else Inr (JObj body))"
  using assms by (simp add: unwrap_def)

text \<open>
  C8. A response whose body is an object with a numeric status \<^verbatim>\<open>errcode\<close> other than 0
  makes the request primitive throw the tagged error whose \<open>code\<close> is that status and
  whose \<open>data\<close> is the whole body: this is what \<open>unwrap\<close> does with the response, and
  it is the result of any \<open>request\<close> whose last call was answered so (the token request
  it makes on the way included). With the status 0 the body is returned unchanged: a
  request that asks for no token returns it, and whenever a \<open>request\<close> whose last call
  was answered so returns a value, the value is that body.
\<close>

theorem nonzero_status_is_tagged_error:
  "(obj_get resp ''data'' = JObj body \<and> obj_get body ''errcode'' = JNum n \<and> n \<noteq> 0 \<longrightarrow>
       unwrap u (Resolved resp) = Inl (DingTalkClientResponseError u (JNum n) (JObj body))
     \<and> (\<forall>r w' calls d.
           request ev os url opts w = (r, w') \<and> sent w' = calls @ [(u, ro)]
           \<and> prefix (sent w) calls \<and> urllib_request ev calls u ro = (Resolved resp, d)
           \<longrightarrow> r = Inl (DingTalkClientResponseError u (JNum n) (JObj body))))
   \<and> (obj_get resp ''data'' = JObj body \<and> obj_get body ''errcode'' = JNum 0 \<longrightarrow>
       unwrap u (Resolved resp) = Inr (JObj body)
     \<and> (ignores_token os opts
          \<and> proxy_url os (url @ ''?'' @ qs_stringify ev (params_of (merge_opts os opts))) = Inr u
          \<and> urllib_request ev (sent w) u (strip_opts (merge_opts os opts)) = (Resolved resp, d0)
          \<longrightarrow> request ev os url opts w =
                (Inr (JObj body),
                 w\<lparr>clock := clock w + int d0,
                   sent := sent w @ [(u, strip_opts (merge_opts os opts))]\<rparr>))
     \<and> (\<forall>v w' calls d.
           request ev os url opts w = (Inr v, w') \<and> sent w' = calls @ [(u, ro)]
           \<and> urllib_request ev calls u ro = (Resolved resp, d)
           \<longrightarrow> v = JObj body))"
proof (intro conjI impI allI)
  assume a: "obj_get resp ''data'' = JObj body \<and> obj_get body ''errcode'' = JNum n \<and> n \<noteq> 0"
  then show e: "unwrap u (Resolved resp) = Inl (DingTalkClientResponseError u (JNum n) (JObj body))"
    by (simp add: unwrap_status)
  fix r w' calls d
  assume b: "request ev os url opts w = (r, w') \<and> sent w' = calls @ [(u, ro)]
           \<and> prefix (sent w) calls \<and> urllib_request ev calls u ro = (Resolved resp, d)"
  then have "unwrap u (fst (urllib_request ev calls u ro))
               = Inl (DingTalkClientResponseError u (JNum n) (JObj body))"
    using e by simp
  with b show "r = Inl (DingTalkClientResponseError u (JNum n) (JObj body))"
    using request_last_error by blast
next
  assume a: "obj_get resp ''data'' = JObj body \<and> obj_get body ''errcode'' = JNum 0"
  then show v: "unwrap u (Resolved resp) = Inr (JObj body)"
    by (simp add: unwrap_status)
  assume b: "ignores_token os opts
          \<and> proxy_url os (url @ ''?'' @ qs_stringify ev (params_of (merge_opts os opts))) = Inr u
          \<and> urllib_request ev (sent w) u (strip_opts (merge_opts os opts)) = (Resolved resp, d0)"
  then show "request ev os url opts w =
                (Inr (JObj body),
                 w\<lparr>clock := clock w + int d0,
                   sent := sent w @ [(u, strip_opts (merge_opts os opts))]\<rparr>)"
    using v by (simp add: request_ignoring send_request_cases)
next
  fix v w' calls d
  assume a: "obj_get resp ''data'' = JObj body \<and> obj_get body ''errcode'' = JNum 0"
    and b: "request ev os url opts w = (Inr v, w') \<and> sent w' = calls @ [(u, ro)]
           \<and> urllib_request ev calls u ro = (Resolved resp, d)"
  from b request_value [of ev os url opts w v w'] have "unwrap u (Resolved resp) = Inr v"
    by auto
  with a show "v = JObj body" by (simp add: unwrap_status)
qed

lemmas run_simps = getAccessToken.simps get.simps request.simps send_request_def
  urllib_call_def unwrap_def proxy_url_def params_of_def getToken_def saveToken_def
  AccessToken_isValid_def Date_now_def expire_time_def safe_integer_def example_env_def example_options_def
  example_body_def world_empty_def object_simps Let_def

lemma request_refused_example:
  "request refusing_env example_options ''https://oapi.dingtalk.com/user/get'' (JObj []) world_empty =
     (Inl (DingTalkClientResponseError
             ''https://oapi.dingtalk.com/gettoken?appkey=key&appsecret=secret'' (JNum 1)
             (JObj [(''errcode'', JNum 1), (''errmsg'', JStr ''refused'')])),
      \<lparr>clock = 1005, store = None, ticketStore = (\<lambda>type. None),
       sent = [(''https://oapi.dingtalk.com/gettoken?appkey=key&appsecret=secret'',
                [(''dataType'', JStr ''json'')])]\<rparr>)"
  by (simp add: refusing_env_def run_simps)

theorem nonzero_status_is_tagged_error_witness:
  "obj_get [(''data'', JObj [(''errcode'', JNum 1), (''errmsg'', JStr ''refused'')])] ''data''
     = JObj [(''errcode'', JNum 1), (''errmsg'', JStr ''refused'')]
   \<and> fst (request refusing_env example_options ''https://oapi.dingtalk.com/user/get'' (JObj [])
            world_empty)
     = Inl (DingTalkClientResponseError
             ''https://oapi.dingtalk.com/gettoken?appkey=key&appsecret=secret'' (JNum 1)
             (JObj [(''errcode'', JNum 1), (''errmsg'', JStr ''refused'')]))
   \<and> ignores_token example_options (JObj [(''ignoreAccessToken'', JBool True)])
   \<and> request example_env example_options ''https://oapi.dingtalk.com/user/get''
        (JObj [(''ignoreAccessToken'', JBool True)]) world_empty
     = (Inr (JObj example_body),
        \<lparr>clock = 1005, store = None, ticketStore = (\<lambda>type. None),
         sent = [(''https://oapi.dingtalk.com/user/get?'', [(''dataType'', JStr ''json'')])]\<rparr>)"
proof -
  let ?body = "[(''errcode'', JNum 1), (''errmsg'', JStr ''refused'')]"
  let ?u = "''https://oapi.dingtalk.com/gettoken?appkey=key&appsecret=secret''"
  let ?rq = "request refusing_env example_options ''https://oapi.dingtalk.com/user/get'' (JObj [])
               world_empty"
  let ?opts = "JObj [(''ignoreAccessToken'', JBool True)]"
  have a: "obj_get [(''data'', JObj ?body)] ''data'' = JObj ?body
           \<and> obj_get ?body ''errcode'' = JNum 1 \<and> (1::int) \<noteq> 0"
    by (simp add: obj_get_def)
  have b: "?rq = (fst ?rq, snd ?rq)
           \<and> sent (snd ?rq) = [] @ [(?u, [(''dataType'', JStr ''json'')])]
           \<and> prefix (sent world_empty) []
           \<and> urllib_request refusing_env [] ?u [(''dataType'', JStr ''json'')]
               = (Resolved [(''data'', JObj ?body)], 5)"
    by (simp add: request_refused_example) (simp add: refusing_env_def world_empty_def)
  note t1 = nonzero_status_is_tagged_error [THEN conjunct1, rule_format, OF a,
              THEN conjunct2, rule_format, OF b]
  have c: "obj_get [(''data'', JObj example_body)] ''data'' = JObj example_body
           \<and> obj_get example_body ''errcode'' = JNum 0"
    by (simp add: obj_get_def example_body_def)
  have i: "ignores_token example_options ?opts"
    by (simp add: ignores_token_def example_options_def object_simps)
  have d: "ignores_token example_options ?opts
           \<and> proxy_url example_options (''https://oapi.dingtalk.com/user/get'' @ ''?'' @
                 qs_stringify example_env (params_of (merge_opts example_options ?opts)))
               = Inr ''https://oapi.dingtalk.com/user/get?''
           \<and> urllib_request example_env (sent world_empty) ''https://oapi.dingtalk.com/user/get?''
                 (strip_opts (merge_opts example_options ?opts))
               = (Resolved [(''data'', JObj example_body)], 5)"
    using i by (simp add: proxy_url_def params_of_def example_options_def example_env_def object_simps)
  note t2 = nonzero_status_is_tagged_error [THEN conjunct2, rule_format, OF c,
              THEN conjunct2, THEN conjunct1, rule_format, OF d]
  from a t1 i t2 show ?thesis
    by (simp add: world_empty_def example_options_def object_simps)
qed

text \<open>
  C10. A truthy body in which \<^verbatim>\<open>errcode\<close> is absent also makes the request primitive
  throw the tagged error, with the code \<^verbatim>\<open>undefined\<close>: the test is \<^verbatim>\<open>errcode !== 0\<close>. A
  falsy body makes it return the whole response object: a request that asks for no token
  returns it, and whenever a \<open>request\<close> whose last call was answered so returns a value,
  the value is that response.
\<close>

theorem missing_status_is_error:
  "(truthy (obj_get resp ''data'') \<and> get_field (obj_get resp ''data'') ''errcode'' = JUndefined \<longrightarrow>
       unwrap u (Resolved resp)
         = Inl (DingTalkClientResponseError u JUndefined (obj_get resp ''data''))
     \<and> (\<forall>r w' calls d.
           request ev os url opts w = (r, w') \<and> sent w' = calls @ [(u, ro)]
           \<and> prefix (sent w) calls \<and> urllib_request ev calls u ro = (Resolved resp, d)
           \<longrightarrow> r = Inl (DingTalkClientResponseError u JUndefined (obj_get resp ''data''))))
   \<and> (\<not> truthy (obj_get resp ''data'') \<longrightarrow>
       unwrap u (Resolved resp) = Inr (JObj resp)
     \<and> (ignores_token os opts
          \<and> proxy_url os (url @ ''?'' @ qs_stringify ev (params_of (merge_opts os opts))) = Inr u
          \<and> urllib_request ev (sent w) u (strip_opts (merge_opts os opts)) = (Resolved resp, d0)
          \<longrightarrow> request ev os url opts w =
                (Inr (JObj resp),
                 w\<lparr>clock := clock w + int d0,
                   sent := sent w @ [(u, strip_opts (merge_opts os opts))]\<rparr>))
     \<and> (\<forall>v w' calls d.
           request ev os url opts w = (Inr v, w') \<and> sent w' = calls @ [(u, ro)]
           \<and> urllib_request ev calls u ro = (Resolved resp, d)
           \<longrightarrow> v = JObj resp))"
proof (intro conjI impI allI)
  assume a: "truthy (obj_get resp ''data'') \<and> get_field (obj_get resp ''data'') ''errcode'' = JUndefined"
  then show e: "unwrap u (Resolved resp)
         = Inl (DingTalkClientResponseError u JUndefined (obj_get resp ''data''))"
    by (simp add: unwrap_def)
  fix r w' calls d
  assume b: "request ev os url opts w = (r, w') \<and> sent w' = calls @ [(u, ro)]
           \<and> prefix (sent w) calls \<and> urllib_request ev calls u ro = (Resolved resp, d)"
  then have "unwrap u (fst (urllib_request ev calls u ro))
               = Inl (DingTalkClientResponseError u JUndefined (obj_get resp ''data''))"
    using e by simp
  with b show "r = Inl (DingTalkClientResponseError u JUndefined (obj_get resp ''data''))"
    using request_last_error by blast
next
  assume a: "\<not> truthy (obj_get resp ''data'')"
  then show v: "unwrap u (Resolved resp) = Inr (JObj resp)"
    by (simp add: unwrap_def)
  assume b: "ignores_token os opts
          \<and> proxy_url os (url @ ''?'' @ qs_stringify ev (params_of (merge_opts os opts))) = Inr u
          \<and> urllib_request ev (sent w) u (strip_opts (merge_opts os opts)) = (Resolved resp, d0)"
  then show "request ev os url opts w =
                (Inr (JObj resp),
                 w\<lparr>clock := clock w + int d0,
                   sent := sent w @ [(u, strip_opts (merge_opts os opts))]\<rparr>)"
    using v by (simp add: request_ignoring send_request_cases)
next
  fix v w' calls d
  assume a: "\<not> truthy (obj_get resp ''data'')"
    and b: "request ev os url opts w = (Inr v, w') \<and> sent w' = calls @ [(u, ro)]
           \<and> urllib_request ev calls u ro = (Resolved resp, d)"
  from b request_value [of ev os url opts w v w'] have "unwrap u (Resolved resp) = Inr v"
    by auto
  with a show "v = JObj resp" by (simp add: unwrap_def)
qed

lemma request_bare_example:
  "request bare_env example_options ''https://oapi.dingtalk.com/user/get'' (JObj []) world_empty =
     (Inl (DingTalkClientResponseError
             ''https://oapi.dingtalk.com/gettoken?appkey=key&appsecret=secret'' JUndefined
             (JObj [(''access_token'', JStr ''fresh'')])),
      \<lparr>clock = 1005, store = None, ticketStore = (\<lambda>type. None),
       sent = [(''https://oapi.dingtalk.com/gettoken?appkey=key&appsecret=secret'',
                [(''dataType'', JStr ''json'')])]\<rparr>)"
  by (simp add: bare_env_def run_simps)

theorem missing_status_is_error_witness:
  "truthy (obj_get [(''data'', JObj [(''access_token'', JStr ''fresh'')])] ''data'')
   \<and> fst (request bare_env example_options ''https://oapi.dingtalk.com/user/get'' (JObj [])
            world_empty)
     = Inl (DingTalkClientResponseError
             ''https://oapi.dingtalk.com/gettoken?appkey=key&appsecret=secret'' JUndefined
             (JObj [(''access_token'', JStr ''fresh'')]))
   \<and> \<not> truthy (obj_get [(''data'', JNull), (''status'', JNum 204)] ''data'')
   \<and> request silent_env example_options ''https://oapi.dingtalk.com/user/get''
        (JObj [(''ignoreAccessToken'', JBool True)]) world_empty
     = (Inr (JObj [(''data'', JNull), (''status'', JNum 204)]),
        \<lparr>clock = 1005, store = None, ticketStore = (\<lambda>type. None),
         sent = [(''https://oapi.dingtalk.com/user/get?'', [(''dataType'', JStr ''json'')])]\<rparr>)"
proof -
  let ?body = "[(''access_token'', JStr ''fresh'')]"
  let ?u = "''https://oapi.dingtalk.com/gettoken?appkey=key&appsecret=secret''"
  let ?rq = "request bare_env example_options ''https://oapi.dingtalk.com/user/get'' (JObj [])
               world_empty"
  let ?opts = "JObj [(''ignoreAccessToken'', JBool True)]"
  let ?resp = "[(''data'', JNull), (''status'', JNum 204)]"
  have a: "truthy (obj_get [(''data'', JObj ?body)] ''data'')
           \<and> get_field (obj_get [(''data'', JObj ?body)] ''data'') ''errcode'' = JUndefined"
    by (simp add: obj_get_def)
  have b: "?rq = (fst ?rq, snd ?rq)
           \<and> sent (snd ?rq) = [] @ [(?u, [(''dataType'', JStr ''json'')])]
           \<and> prefix (sent world_empty) []
           \<and> urllib_request bare_env [] ?u [(''dataType'', JStr ''json'')]
               = (Resolved [(''data'', JObj ?body)], 5)"
    by (simp add: request_bare_example) (simp add: bare_env_def world_empty_def)
  note t1 = missing_status_is_error [THEN conjunct1, rule_format, OF a,
              THEN conjunct2, rule_format, OF b]
  have c: "\<not> truthy (obj_get ?resp ''data'')"
    by (simp add: obj_get_def)
  have i: "ignores_token example_options ?opts"
    by (simp add: ignores_token_def example_options_def object_simps)
  have d: "ignores_token example_options ?opts
           \<and> proxy_url example_options (''https://oapi.dingtalk.com/user/get'' @ ''?'' @
                 qs_stringify silent_env (params_of (merge_opts example_options ?opts)))
               = Inr ''https://oapi.dingtalk.com/user/get?''
           \<and> urllib_request silent_env (sent world_empty) ''https://oapi.dingtalk.com/user/get?''
                 (strip_opts (merge_opts example_options ?opts))
               = (Resolved ?resp, 5)"
    using i
    by (simp add: proxy_url_def params_of_def example_options_def silent_env_def example_env_def
          object_simps)
  note t2 = missing_status_is_error [THEN conjunct2, rule_format, OF c,
              THEN conjunct2, THEN conjunct1, rule_format, OF d]
  from a t1 c t2 show ?thesis
    by (simp add: world_empty_def example_options_def object_simps obj_get_def)
qed

section \<open>Validation in the endpoint wrappers\<close>

text \<open>
  An argument lacks a field when it is an object without that own property, or no
  object at all. A call is rejected before the network when it fails with an assertion
  error or a \<^verbatim>\<open>TypeError\<close> and the state, the log of calls included, is what it was.
  \<open>is_assertion\<close> tells the failure of an \<^verbatim>\<open>assert\<close> from every other result.
\<close>

fun lacks :: "jsval \<Rightarrow> string \<Rightarrow> bool" where
  "lacks (JObj ps) k = (k \<notin> set (map fst ps))"
| "lacks v k = True"

fun rejected_before_network :: "world \<Rightarrow> (error + jsval) \<times> world \<Rightarrow> bool" where
  "rejected_before_network w (Inl (AssertionError m), w') = (w' = w)"
| "rejected_before_network w (Inl (TypeError m), w') = (w' = w)"
| "rejected_before_network w (r, w') = False"

fun is_assertion :: "error + jsval \<Rightarrow> bool" where
  "is_assertion (Inl (AssertionError m)) = True"
| "is_assertion r = False"

lemma obj_get_absent: "k \<notin> set (map fst ps) \<Longrightarrow> obj_get ps k = JUndefined"
proof -
  assume "k \<notin> set (map fst ps)"
  then have "map_of ps k = None" by (simp add: map_of_eq_None_iff)
  then show ?thesis by (simp add: obj_get_def)
qed

lemma lacks_get_field: "lacks opts k \<Longrightarrow> get_field opts k = JUndefined"
  by (cases opts) (simp_all add: obj_get_absent)

lemma lacks_get_computed:
  "lacks opts k \<Longrightarrow> k \<notin> set (map fst Object_prototype) \<Longrightarrow> get_computed opts k = JUndefined"
  by (cases opts) (simp_all add: obj_get_absent)

lemma unwrap_no_assertion: "\<not> is_assertion (unwrap u out)"
  by (simp add: unwrap_def Let_def split: outcome.splits)

lemma send_request_no_assertion: "\<not> is_assertion (fst (send_request ev os url ro params w))"
  by (auto simp: send_request_cases proxy_url_def unwrap_no_assertion
        split: sum.splits option.splits if_splits)

lemma getAccessToken_no_assertion: "\<not> is_assertion (fst (getAccessToken ev os w))"
proof (cases "\<exists>t e. store w = Some t \<and> expireTime t = Fin e \<and> clock w < e")
  case True
  then show ?thesis by (auto simp: getAccessToken_valid)
next
  case False
  obtain r w1 where sr:
    "send_request ev os (host os @ ''/'' @ token_api os) (token_opts os) (token_data os) w = (r, w1)"
    by (metis surj_pair)
  have "\<not> is_assertion r" using send_request_no_assertion [of ev os _ _ _ w] sr by (metis fst_conv)
  then show ?thesis
    unfolding getAccessToken_stale [OF False] sr
    by (auto split: sum.splits option.splits)
qed

lemma set_access_token_no_assertion: "\<not> is_assertion (set_access_token p t)"
  by (cases "(p, t)" rule: set_access_token.cases) auto

lemma request_no_assertion: "\<not> is_assertion (fst (request ev os url opts w))"
proof -
  have a: "\<not> is_assertion (Inl e)" if "getAccessToken ev os w = (Inl e, w1)" for e w1
    using getAccessToken_no_assertion [of ev os w] that by simp
  have b: "\<not> is_assertion (Inl e)" if "set_access_token p t = Inl e" for e p t
    using set_access_token_no_assertion [of p t] that by simp
  show ?thesis
    by (auto simp: request.simps Let_def send_request_no_assertion a b
          split: prod.splits sum.splits)
qed

lemma callback_no_assertion:
  "\<not> is_assertion (fst (register_call_back ev os opts w))"
  "\<not> is_assertion (fst (get_call_back ev os opts w))"
  "\<not> is_assertion (fst (update_call_back ev os opts w))"
  "\<not> is_assertion (fst (delete_call_back ev os opts w))"
  by (simp_all add: register_call_back_def get_call_back_def update_call_back_def
        delete_call_back_def get.simps request_no_assertion)

lemma send_rejects:
  assumes "(lacks opts ''touser'' \<and> lacks opts ''toparty'') \<or> lacks opts ''msgtype''
           \<or> lacks opts ''agentid''
           \<or> (lacks opts (ToString (get_field opts ''msgtype''))
                \<and> ToString (get_field opts ''msgtype'') \<notin> set (map fst Object_prototype))"
  shows "rejected_before_network w (send ev os opts w)"
  using assms
  by (auto simp: send_def cannot_read_def lacks_get_field lacks_get_computed)

text \<open>
  C9, as the code has it. Every wrapper of \<^verbatim>\<open>Message\<close> rejects a call before the network
  when its argument lacks a field the wrapper asserts: \<^verbatim>\<open>send\<close> needs \<^verbatim>\<open>touser\<close> or
  \<^verbatim>\<open>toparty\<close>, \<^verbatim>\<open>msgtype\<close>, \<^verbatim>\<open>agentid\<close> and the field that \<^verbatim>\<open>msgtype\<close> names (where
  that name is not one every object inherits from \<^verbatim>\<open>Object.prototype\<close>);
  \<^verbatim>\<open>listMessageStatus\<close> needs its \<^verbatim>\<open>messageId\<close>; \<^verbatim>\<open>sendMessage\<close> needs \<^verbatim>\<open>agent_id\<close>, one of
  \<^verbatim>\<open>userid_list\<close>, \<^verbatim>\<open>dept_id_list\<close>, \<^verbatim>\<open>to_all_user\<close>, and \<^verbatim>\<open>msg\<close>; \<^verbatim>\<open>getSendProgress\<close> and
  \<^verbatim>\<open>getSendResult\<close> need \<^verbatim>\<open>agent_id\<close> and \<^verbatim>\<open>task_id\<close>; \<^verbatim>\<open>recallMessage\<close> needs \<^verbatim>\<open>agent_id\<close>
  and \<^verbatim>\<open>msg_task_id\<close>. The wrappers of \<^verbatim>\<open>Callback\<close> validate nothing: whatever their
  argument, they never fail with an assertion error.
\<close>

theorem message_wrappers_validate:
  "((lacks opts ''touser'' \<and> lacks opts ''toparty'') \<or> lacks opts ''msgtype''
      \<or> lacks opts ''agentid''
      \<or> (lacks opts (ToString (get_field opts ''msgtype''))
           \<and> ToString (get_field opts ''msgtype'') \<notin> set (map fst Object_prototype))
     \<longrightarrow> rejected_before_network w (send ev os opts w))
   \<and> (messageId = JUndefined \<longrightarrow> rejected_before_network w (listMessageStatus ev os messageId w))
   \<and> (lacks opts ''agent_id''
        \<or> (lacks opts ''userid_list'' \<and> lacks opts ''dept_id_list'' \<and> lacks opts ''to_all_user'')
        \<or> lacks opts ''msg''
     \<longrightarrow> rejected_before_network w (sendMessage ev os opts w))
   \<and> (lacks opts ''agent_id'' \<or> lacks opts ''task_id''
     \<longrightarrow> rejected_before_network w (getSendProgress ev os opts w))
   \<and> (lacks opts ''agent_id'' \<or> lacks opts ''task_id''
     \<longrightarrow> rejected_before_network w (getSendResult ev os opts w))
   \<and> (lacks opts ''agent_id'' \<or> lacks opts ''msg_task_id''
     \<longrightarrow> rejected_before_network w (recallMessage ev os opts w))
   \<and> \<not> is_assertion (fst (register_call_back ev os copts w))
   \<and> \<not> is_assertion (fst (get_call_back ev os copts w))
   \<and> \<not> is_assertion (fst (update_call_back ev os copts w))
   \<and> \<not> is_assertion (fst (delete_call_back ev os copts w))"
proof (intro conjI impI)
  show "\<not> is_assertion (fst (register_call_back ev os copts w))"
    "\<not> is_assertion (fst (get_call_back ev os copts w))"
    "\<not> is_assertion (fst (update_call_back ev os copts w))"
    "\<not> is_assertion (fst (delete_call_back ev os copts w))"
    by (rule callback_no_assertion)+
  show "rejected_before_network w (send ev os opts w)"
    if "(lacks opts ''touser'' \<and> lacks opts ''toparty'') \<or> lacks opts ''msgtype''
      \<or> lacks opts ''agentid''
      \<or> (lacks opts (ToString (get_field opts ''msgtype''))
           \<and> ToString (get_field opts ''msgtype'') \<notin> set (map fst Object_prototype))"
    using that by (rule send_rejects)
  show "rejected_before_network w (listMessageStatus ev os messageId w)" if "messageId = JUndefined"
    using that by (simp add: listMessageStatus_def)
  show "rejected_before_network w (sendMessage ev os opts w)"
    if "lacks opts ''agent_id''
        \<or> (lacks opts ''userid_list'' \<and> lacks opts ''dept_id_list'' \<and> lacks opts ''to_all_user'')
        \<or> lacks opts ''msg''"
    using that by (auto simp: sendMessage_def cannot_read_def lacks_get_field)
  show "rejected_before_network w (getSendProgress ev os opts w)"
    if "lacks opts ''agent_id'' \<or> lacks opts ''task_id''"
    using that by (auto simp: getSendProgress_def cannot_read_def lacks_get_field)
  show "rejected_before_network w (getSendResult ev os opts w)"
    if "lacks opts ''agent_id'' \<or> lacks opts ''task_id''"
    using that by (auto simp: getSendResult_def cannot_read_def lacks_get_field)
  show "rejected_before_network w (recallMessage ev os opts w)"
    if "lacks opts ''agent_id'' \<or> lacks opts ''msg_task_id''"
    using that by (auto simp: recallMessage_def cannot_read_def lacks_get_field)
qed

theorem message_wrappers_validate_witness:
  "lacks (JObj [(''touser'', JStr ''u1''), (''agentid'', JNum 7)]) ''msgtype''
   \<and> rejected_before_network world_empty
        (send example_env example_options
           (JObj [(''touser'', JStr ''u1''), (''agentid'', JNum 7)]) world_empty)
   \<and> rejected_before_network world_empty
        (listMessageStatus example_env example_options JUndefined world_empty)
   \<and> lacks (JObj [(''agent_id'', JNum 7), (''userid_list'', JStr ''u1'')]) ''msg''
   \<and> rejected_before_network world_empty
        (sendMessage example_env example_options
           (JObj [(''agent_id'', JNum 7), (''userid_list'', JStr ''u1'')]) world_empty)
   \<and> lacks (JObj [(''agent_id'', JNum 7)]) ''task_id''
   \<and> rejected_before_network world_empty
        (getSendProgress example_env example_options (JObj [(''agent_id'', JNum 7)]) world_empty)
   \<and> rejected_before_network world_empty
        (getSendResult example_env example_options (JObj [(''agent_id'', JNum 7)]) world_empty)
   \<and> lacks (JObj [(''agent_id'', JNum 7)]) ''msg_task_id''
   \<and> rejected_before_network world_empty
        (recallMessage example_env example_options (JObj [(''agent_id'', JNum 7)]) world_empty)"
proof -
  note t = message_wrappers_validate [where ev = example_env and os = example_options
             and w = world_empty]
  have a: "lacks (JObj [(''touser'', JStr ''u1''), (''agentid'', JNum 7)]) ''msgtype''" by simp
  have b: "lacks (JObj [(''agent_id'', JNum 7), (''userid_list'', JStr ''u1'')]) ''msg''" by simp
  have c: "lacks (JObj [(''agent_id'', JNum 7)]) ''task_id''" by simp
  have d: "lacks (JObj [(''agent_id'', JNum 7)]) ''msg_task_id''" by simp
  from t [where opts = "JObj [(''touser'', JStr ''u1''), (''agentid'', JNum 7)]"] a
  have 1: "rejected_before_network world_empty
        (send example_env example_options
           (JObj [(''touser'', JStr ''u1''), (''agentid'', JNum 7)]) world_empty)"
    by blast
  from t [where messageId = JUndefined]
  have 2: "rejected_before_network world_empty
        (listMessageStatus example_env example_options JUndefined world_empty)"
    by blast
  from t [where opts = "JObj [(''agent_id'', JNum 7), (''userid_list'', JStr ''u1'')]"] b
  have 3: "rejected_before_network world_empty
        (sendMessage example_env example_options
           (JObj [(''agent_id'', JNum 7), (''userid_list'', JStr ''u1'')]) world_empty)"
    by blast
  from t [where opts = "JObj [(''agent_id'', JNum 7)]"] c d
  have 4: "rejected_before_network world_empty
        (getSendProgress example_env example_options (JObj [(''agent_id'', JNum 7)]) world_empty)"
    and 5: "rejected_before_network world_empty
        (getSendResult example_env example_options (JObj [(''agent_id'', JNum 7)]) world_empty)"
    and 6: "rejected_before_network world_empty
        (recallMessage example_env example_options (JObj [(''agent_id'', JNum 7)]) world_empty)"
    by blast+
  from a b c d 1 2 3 4 5 6 show ?thesis by blast
qed

text \<open>
  The wrappers of \<^verbatim>\<open>Callback\<close> assert nothing. Called with an object that has no field
  at all, \<^verbatim>\<open>register_call_back\<close> is not rejected: it fetches a token and sends the
  request.
\<close>

lemma register_call_back_example:
  "register_call_back example_env example_options (JObj []) world_empty =
     (Inr (JObj example_body),
      \<lparr>clock = 1010, store = Some (Token (JStr ''fresh'') (Fin 7191005)),
       ticketStore = (\<lambda>type. None),
       sent = [(''https://oapi.dingtalk.com/gettoken?appkey=key&appsecret=secret'',
                [(''dataType'', JStr ''json'')]),
               (''https://oapi.dingtalk.com/call_back/register_call_back?access_token=fresh'',
                [(''dataType'', JStr ''json'')])]\<rparr>)"
  by (simp add: register_call_back_def run_simps)

theorem callback_wrapper_reaches_network:
  "lacks (JObj []) ''call_back_tag'' \<and> lacks (JObj []) ''token''
   \<and> lacks (JObj []) ''aes_key'' \<and> lacks (JObj []) ''url''
   \<and> \<not> rejected_before_network world_empty
         (register_call_back example_env example_options (JObj []) world_empty)
   \<and> sent (snd (register_call_back example_env example_options (JObj []) world_empty)) =
        [(''https://oapi.dingtalk.com/gettoken?appkey=key&appsecret=secret'',
          [(''dataType'', JStr ''json'')]),
         (''https://oapi.dingtalk.com/call_back/register_call_back?access_token=fresh'',
          [(''dataType'', JStr ''json'')])]"
  by (simp add: register_call_back_example)

text \<open>
  A message type that names a property of \<^verbatim>\<open>Object.prototype\<close> passes the last
  assertion of \<^verbatim>\<open>send\<close> without a message body: \<^verbatim>\<open>opts[opts.msgtype]\<close> finds the
  inherited property.
\<close>

lemma send_slip:
  "fst (send example_env example_options (JObj [(''touser'', JStr ''u1''), (''agentid'', JNum 7), (''msgtype'', JStr ''constructor'')]) world_empty) = Inr (JObj example_body)"
  by (simp add: send_def post_def nullish_def Object_prototype_def run_simps)

section \<open>URL normalisation\<close>

lemmas url_simps = normalizeUrl_def Url_parse_def Url_format_deleted_def querystring_parse_def
  decoded_pairs_def
  add_pair_def qs_unescape_def unhex_def hex_chars_def lower_hex_def char_of_def
  bit_iff_odd_drop_bit object_simps Let_def





subsection \<open>Array indices are canonical\<close>

lemma digit_val_less: "is_digit c \<Longrightarrow> digit_val c < 10"
  by (auto simp: is_digit_def digit_val_def digit_chars_def)

lemma digit_chars_nth: "is_digit c \<Longrightarrow> digit_chars ! digit_val c = c"
  by (auto simp: is_digit_def digit_val_def digit_chars_def)

lemma digit_val_zero: "is_digit c \<Longrightarrow> digit_val c = 0 \<Longrightarrow> c = CHR ''0''"
  by (auto simp: is_digit_def digit_val_def digit_chars_def split: if_splits)

lemma digits_val_snoc: "digits_val (s @ [c]) = 10 * digits_val s + digit_val c"
  by (simp add: digits_val_def)

lemma foldl_digits_ge: "a \<le> foldl (\<lambda>a c. 10 * a + digit_val c) a s"
proof (induction s arbitrary: a)
  case Nil
  show ?case by simp
next
  case (Cons c s)
  have "a \<le> 10 * a + digit_val c" by simp
  also have "\<dots> \<le> foldl (\<lambda>a c. 10 * a + digit_val c) (10 * a + digit_val c) s"
    by (rule Cons.IH)
  finally show ?case by simp
qed

lemma digits_val_pos:
  assumes "s \<noteq> []" and "list_all is_digit s" and "hd s \<noteq> CHR ''0''"
  shows "0 < digits_val s"
proof -
  obtain c t where s: "s = c # t" using assms(1) by (cases s) auto
  with assms have "is_digit c" and "c \<noteq> CHR ''0''" by auto
  then have "0 < digit_val c" using digit_val_zero by fastforce
  also have "digit_val c \<le> foldl (\<lambda>a c. 10 * a + digit_val c) (digit_val c) t"
    by (rule foldl_digits_ge)
  finally show ?thesis by (simp add: s digits_val_def)
qed

lemma show_nat_digits_val:
  assumes "s \<noteq> []" and "list_all is_digit s" and "length s = 1 \<or> hd s \<noteq> CHR ''0''"
  shows "show_nat (digits_val s) = s"
  using assms
proof (induction s rule: rev_induct)
  case Nil
  then show ?case by simp
next
  case (snoc c s)
  then have c: "is_digit c" by simp
  show ?case
  proof (cases "s = []")
    case True
    then show ?thesis
      using c digit_val_less [OF c] digit_chars_nth [OF c]
      by (simp add: digits_val_def show_nat.simps)
  next
    case False
    with snoc.prems have hd: "hd s \<noteq> CHR ''0''" and ds: "list_all is_digit s" by auto
    from snoc.IH [OF False ds] hd have ih: "show_nat (digits_val s) = s" by simp
    have pos: "0 < digits_val s" by (rule digits_val_pos [OF False ds hd])
    have lt: "digit_val c < 10" by (rule digit_val_less [OF c])
    have "show_nat (10 * digits_val s + digit_val c)
            = show_nat (digits_val s) @ [digit_chars ! digit_val c]"
      using pos lt by (subst show_nat.simps) simp
    then show ?thesis by (simp add: digits_val_snoc ih digit_chars_nth [OF c])
  qed
qed

lemma array_index_show: "array_index k = Some n \<Longrightarrow> show_nat n = k"
  by (auto simp: array_index_def show_nat_digits_val split: if_splits)

lemma array_index_inj: "array_index k = Some n \<Longrightarrow> array_index k' = Some n \<Longrightarrow> k = k'"
  using array_index_show by metis


subsection \<open>The order of an object's keys\<close>

text \<open>Array indices in ascending order first, then the other keys; no key twice.
  \<open>obj_set\<close> keeps an object in that order, and setting the entries of an ordered object
  one after the other, from the empty object, builds it again.\<close>

definition key_before :: "string \<Rightarrow> string \<Rightarrow> bool" where
  "key_before k k' =
     (case array_index k of
        Some m \<Rightarrow> (case array_index k' of Some n \<Rightarrow> m < n | None \<Rightarrow> True)
      | None \<Rightarrow> array_index k' = None)"

definition key_order :: "obj \<Rightarrow> bool" where
  "key_order ps = (sorted_wrt key_before (map fst ps) \<and> distinct (map fst ps))"

lemma key_before_trans: "key_before a b \<Longrightarrow> key_before b c \<Longrightarrow> key_before a c"
  by (auto simp: key_before_def split: option.splits)

lemma insert_index_split:
  "\<exists>xs ys. ps = xs @ ys \<and> obj_insert_index n k v ps = xs @ (k, v) # ys"
proof (induction ps)
  case Nil
  show ?case by simp
next
  case (Cons p ps)
  then obtain xs ys where s: "ps = xs @ ys" "obj_insert_index n k v ps = xs @ (k, v) # ys"
    by blast
  obtain k' v' where p: "p = (k', v')" by (cases p)
  show ?case
  proof (cases "\<exists>m. array_index k' = Some m \<and> m < n")
    case True
    then have "obj_insert_index n k v (p # ps) = (p # xs) @ (k, v) # ys"
      using s(2) by (auto simp: p)
    moreover have "p # ps = (p # xs) @ ys" by (simp add: s)
    ultimately show ?thesis by blast
  next
    case False
    then have "obj_insert_index n k v (p # ps) = [] @ (k, v) # (p # ps)"
      by (auto simp: p split: option.splits)
    then show ?thesis by blast
  qed
qed

lemma keys_insert_index:
  "set (map fst (obj_insert_index n k v ps)) = insert k (set (map fst ps))"
proof -
  obtain xs ys where "ps = xs @ ys" "obj_insert_index n k v ps = xs @ (k, v) # ys"
    using insert_index_split by blast
  then show ?thesis by auto
qed

lemma sorted_insert_index:
  assumes "sorted_wrt key_before (map fst ps)" and "array_index k = Some n"
    and "k \<notin> set (map fst ps)"
  shows "sorted_wrt key_before (map fst (obj_insert_index n k v ps))"
  using assms
proof (induction ps)
  case Nil
  then show ?case by simp
next
  case (Cons p ps)
  obtain k' v' where p: "p = (k', v')" by (cases p)
  from Cons.prems have srt: "sorted_wrt key_before (map fst ps)"
    and all: "\<forall>x\<in>set (map fst ps). key_before k' x" and ne: "k' \<noteq> k"
    and notin: "k \<notin> set (map fst ps)"
    by (auto simp: p)
  show ?case
  proof (cases "array_index k'")
    case None
    then have "key_before k k'" using Cons.prems(2) by (simp add: key_before_def)
    moreover from this all have "\<forall>x\<in>set (map fst ps). key_before k x"
      using key_before_trans by blast
    ultimately show ?thesis using None srt all by (simp add: p)
  next
    case (Some m)
    show ?thesis
    proof (cases "m < n")
      case True
      then have "key_before k' k" using Some Cons.prems(2) by (simp add: key_before_def)
      with True Some srt all Cons.IH [OF srt Cons.prems(2) notin] show ?thesis
        by (auto simp: p keys_insert_index simp del: set_map)
    next
      case False
      have "m \<noteq> n" using array_index_inj [OF Some] Cons.prems(2) ne by auto
      with False have "n < m" by simp
      then have "key_before k k'" using Some Cons.prems(2) by (simp add: key_before_def)
      moreover from this all have "\<forall>x\<in>set (map fst ps). key_before k x"
        using key_before_trans by blast
      ultimately show ?thesis using False Some srt all by (simp add: p)
    qed
  qed
qed

lemma distinct_insert_index:
  assumes "distinct (map fst ps)" and "k \<notin> set (map fst ps)"
  shows "distinct (map fst (obj_insert_index n k v ps))"
proof -
  obtain xs ys where "ps = xs @ ys" "obj_insert_index n k v ps = xs @ (k, v) # ys"
    using insert_index_split by blast
  with assms show ?thesis by auto
qed

lemma map_fst_update:
  "map fst (map (\<lambda>p. if fst p = k then (k, v) else p) ps) = map fst ps"
  by (induction ps) auto

lemma keys_obj_set: "set (map fst (obj_set k v ps)) = insert k (set (map fst ps))"
proof (cases "k \<in> set (map fst ps)")
  case True
  then have "obj_set k v ps = map (\<lambda>p. if fst p = k then (k, v) else p) ps"
    by (simp add: obj_set_def)
  then have "map fst (obj_set k v ps) = map fst ps"
    by (simp only: map_fst_update)
  with True show ?thesis by (simp only: insert_absorb)
next
  case False
  show ?thesis
  proof (cases "array_index k")
    case None
    with False have "obj_set k v ps = ps @ [(k, v)]" by (simp add: obj_set_def)
    then show ?thesis by simp
  next
    case (Some n)
    with False have "obj_set k v ps = obj_insert_index n k v ps" by (simp add: obj_set_def)
    then show ?thesis by (simp only: keys_insert_index)
  qed
qed

lemma key_order_obj_set: "key_order ps \<Longrightarrow> key_order (obj_set k v ps)"
proof (cases "k \<in> set (map fst ps)")
  case True
  assume "key_order ps"
  moreover from True have "obj_set k v ps = map (\<lambda>p. if fst p = k then (k, v) else p) ps"
    by (simp add: obj_set_def)
  ultimately show ?thesis by (simp only: key_order_def map_fst_update)
next
  case False
  assume o: "key_order ps"
  show ?thesis
  proof (cases "array_index k")
    case None
    then have "\<forall>x\<in>set (map fst ps). key_before x k"
      by (auto simp: key_before_def split: option.splits)
    with o False None show ?thesis
      by (simp add: obj_set_def key_order_def sorted_wrt_append del: set_map)
  next
    case (Some n)
    with o False show ?thesis
      by (simp add: obj_set_def key_order_def sorted_insert_index distinct_insert_index
            del: set_map)
  qed
qed

lemma insert_index_at_end:
  assumes "\<forall>x\<in>set (map fst ps). key_before x k" and "array_index k = Some n"
  shows "obj_insert_index n k v ps = ps @ [(k, v)]"
  using assms by (induction ps) (auto simp: key_before_def split: option.splits)

lemma obj_set_at_end:
  assumes "\<forall>x\<in>set (map fst ps). key_before x k" and "k \<notin> set (map fst ps)"
  shows "obj_set k v ps = ps @ [(k, v)]"
  using assms by (auto simp: obj_set_def insert_index_at_end split: option.splits simp del: set_map)

lemma rebuild:
  assumes "key_order ps"
  shows "fold (\<lambda>p acc. obj_set (fst p) (f p) acc) ps [] = map (\<lambda>p. (fst p, f p)) ps"
  using assms
proof (induction ps rule: rev_induct)
  case Nil
  show ?case by simp
next
  case (snoc p ps)
  from snoc.prems have o: "key_order ps" and b: "\<forall>x\<in>set (map fst ps). key_before x (fst p)"
    and n: "fst p \<notin> set (map fst ps)"
    by (auto simp: key_order_def sorted_wrt_append)
  have "map fst (map (\<lambda>p. (fst p, f p)) ps) = map fst ps" by (induction ps) auto
  with b n have "obj_set (fst p) (f p) (map (\<lambda>p. (fst p, f p)) ps)
                   = map (\<lambda>p. (fst p, f p)) ps @ [(fst p, f p)]"
    by (intro obj_set_at_end) simp_all
  then show ?case by (simp add: snoc.IH [OF o])
qed


subsection \<open>Splitting and joining\<close>









subsection \<open>The query object of settled pairs\<close>














subsection \<open>Parsing the query that was printed\<close>
















section \<open>The signature\<close>

subsection \<open>The signed record, as the specification words it\<close>

text \<open>
  The record \<^verbatim>\<open>{ jsapi_ticket, noncestr, timestamp, url: normalizeUrl(url), ...opts }\<close> as a
  function of the key (a property of \<open>opts\<close> replaces the default of its name), the set
  of its keys, and its serialisation: the pairs \<^verbatim>\<open>key=value\<close> in the order of the sorted
  keys, joined by \<open>&\<close>.
\<close>

definition spec_sign_record :: "jsval \<Rightarrow> int \<Rightarrow> string \<Rightarrow> jsval \<Rightarrow> string \<Rightarrow> jsval" where
  "spec_sign_record tk now url opts k =
     (case map_of (rev (own_entries opts)) k of
        Some v \<Rightarrow> v
      | None \<Rightarrow>
          if k = ''jsapi_ticket'' then tk
          else if k = ''noncestr'' then JStr (''DingTalk#'' @ show_int now)
          else if k = ''timestamp'' then JNum now
          else if k = ''url'' then JStr (normalizeUrl url)
          else JUndefined)"

definition spec_sign_keys :: "jsval \<Rightarrow> string set" where
  "spec_sign_keys opts =
     {''jsapi_ticket'', ''noncestr'', ''timestamp'', ''url''} \<union> set (map fst (own_entries opts))"

definition spec_sign_string :: "jsval \<Rightarrow> int \<Rightarrow> string \<Rightarrow> jsval \<Rightarrow> string" where
  "spec_sign_string tk now url opts =
     join ''&'' (map (\<lambda>k. k @ ''='' @ ToString (spec_sign_record tk now url opts k))
                  (sorted_list_of_set (spec_sign_keys opts)))"

definition world_ticket :: "int \<Rightarrow> world" where
  "world_ticket now =
     \<lparr>clock = now, store = None,
      ticketStore = (\<lambda>type. if type = ''jsapi'' then Some (TicketToken (JStr ''T'') (Fin 9000)) else None),
      sent = []\<rparr>"

lemma key_order_fold:
  "key_order ps \<Longrightarrow> key_order (fold (\<lambda>p t. obj_set (fst p) (snd p) t) es ps)"
  by (induction es arbitrary: ps) (auto simp: key_order_obj_set)

lemma keys_fold:
  "set (map fst (fold (\<lambda>p t. obj_set (fst p) (snd p) t) es ps))
     = set (map fst ps) \<union> set (map fst es)"
  by (induction es arbitrary: ps) (auto simp: keys_obj_set simp del: set_map)

lemma obj_get_fold:
  "obj_get (fold (\<lambda>p t. obj_set (fst p) (snd p) t) es ps) k
     = (case map_of (rev es) k of Some v \<Rightarrow> v | None \<Rightarrow> obj_get ps k)"
  by (simp add: obj_get_def map_of_fold_obj_set map_add_def split: option.splits)

lemma sign_defaults_order:
  "key_order [(''jsapi_ticket'', a), (''noncestr'', b), (''timestamp'', c), (''url'', d)]"
  by (simp add: key_order_def key_before_def array_index_nondigit is_digit_def digit_chars_def)

lemma getJSApiConfig_spec:
  assumes "getJSApiTicket ev os JUndefined w = (Inr tk, w1)"
  shows "getJSApiConfig ev os url opts w =
     (Inr \<lparr>corpId = corpid os,
           timeStamp = spec_sign_record tk (clock w1) url opts ''timestamp'',
           nonceStr = spec_sign_record tk (clock w1) url opts ''noncestr'',
           signature = sha1_hex ev (spec_sign_string tk (clock w1) url opts)\<rparr>, w1)"
proof -
  define d where "d = [(''jsapi_ticket'', tk),
                  (''noncestr'', JStr (''DingTalk#'' @ show_int (clock w1))),
                  (''timestamp'', JNum (clock w1)),
                  (''url'', JStr (normalizeUrl url))]"
  define signObj where "signObj = Object_assign d [opts]"
  have f: "signObj = fold (\<lambda>p t. obj_set (fst p) (snd p) t) (own_entries opts) d"
    by (simp add: signObj_def Object_assign_def)
  have ko: "key_order signObj"
    unfolding f d_def by (intro key_order_fold sign_defaults_order)
  have keys: "set (map fst signObj) = spec_sign_keys opts"
    unfolding f keys_fold by (auto simp: d_def spec_sign_keys_def)
  have val: "obj_get signObj k = spec_sign_record tk (clock w1) url opts k" for k
    unfolding f obj_get_fold spec_sign_record_def
    by (simp add: d_def obj_get_def split: option.splits)
  have "distinct (map fst signObj)" using ko by (simp add: key_order_def)
  then have "remdups (map fst signObj) = map fst signObj" by (rule distinct_remdups_id)
  then have "sort (map fst signObj) = sorted_list_of_set (set (map fst signObj))"
    by (simp only: sorted_list_of_set_sort_remdups)
  then have srt: "sort (map fst signObj) = sorted_list_of_set (spec_sign_keys opts)"
    by (simp only: keys)
  show ?thesis
    unfolding getJSApiConfig_def assms prod.case sum.case Let_def Date_now_def
      d_def [symmetric] signObj_def [symmetric] srt val spec_sign_string_def
    by (rule refl)
qed

lemma spec_sign_string_pinned:
  assumes "''noncestr'' \<in> set (map fst (own_entries opts))"
    and "''timestamp'' \<in> set (map fst (own_entries opts))"
  shows "spec_sign_string tk now url opts = spec_sign_string tk now' url opts"
proof -
  have "spec_sign_record tk now url opts k = spec_sign_record tk now' url opts k" for k
  proof (cases "map_of (rev (own_entries opts)) k")
    case None
    then have "k \<notin> set (map fst (own_entries opts))"
      by (simp add: map_of_eq_None_iff)
    with assms have "k \<noteq> ''noncestr''" "k \<noteq> ''timestamp''" by auto
    with None show ?thesis by (simp add: spec_sign_record_def)
  next
    case (Some v)
    then show ?thesis by (simp add: spec_sign_record_def)
  qed
  then show ?thesis by (simp add: spec_sign_string_def)
qed

lemma getJSApiTicket_cached_example:
  "now < 9000 \<Longrightarrow>
   getJSApiTicket ev os JUndefined (world_ticket now) = (Inr (JStr ''T''), world_ticket now)"
  by (simp add: getJSApiTicket_def getTicketToken_def Ticket_isValid_def Date_now_def
        world_ticket_def)

lemma sorted_example: "sorted_list_of_set {''jsapi_ticket'', ''noncestr'', ''timestamp'', ''url''} = [''jsapi_ticket'', ''noncestr'', ''timestamp'', ''url'']"
proof -
  have "{''jsapi_ticket'', ''noncestr'', ''timestamp'', ''url''}
          = set [''jsapi_ticket'', ''noncestr'', ''timestamp'', ''url'']" by simp
  then show ?thesis
    by (simp only: sorted_list_of_set_sort_remdups)
       (simp add: less_eq_char_def less_char_def)
qed

lemma spec_sign_string_example:
  "spec_sign_string (JStr ''T'') 1000 ''https://a.com/p?x=1#frag'' JUndefined
     = ''jsapi_ticket=T&noncestr=DingTalk#1000&timestamp=1000&url=https://a.com/p?x=1''"
proof -
  have n: "normalizeUrl ''https://a.com/p?x=1#frag'' = ''https://a.com/p?x=1''"
    by (simp add: url_simps)
  have k: "spec_sign_keys JUndefined = {''jsapi_ticket'', ''noncestr'', ''timestamp'', ''url''}"
    by (simp add: spec_sign_keys_def)
  show ?thesis
    unfolding spec_sign_string_def k sorted_example
    by (simp add: spec_sign_record_def n show_int_def show_nat.simps digit_chars_def)
qed

text \<open>
  C6. Once the ticket is there, \<open>getJSApiConfig\<close> returns the configured corp id,
  the \<^verbatim>\<open>timestamp\<close> and \<^verbatim>\<open>noncestr\<close> of the signed record, and the digest of the
  record's serialisation; the state is the one the ticket lookup left.
\<close>

theorem getJSApiConfig_signature:
  assumes "getJSApiTicket ev os JUndefined w = (Inr tk, w1)"
  shows "getJSApiConfig ev os url opts w =
     (Inr \<lparr>corpId = corpid os,
           timeStamp = spec_sign_record tk (clock w1) url opts ''timestamp'',
           nonceStr = spec_sign_record tk (clock w1) url opts ''noncestr'',
           signature = sha1_hex ev (spec_sign_string tk (clock w1) url opts)\<rparr>, w1)"
  using assms by (rule getJSApiConfig_spec)

theorem getJSApiConfig_signature_witness:
  "getJSApiTicket example_env example_options JUndefined (world_ticket 1000)
     = (Inr (JStr ''T''), world_ticket 1000)
   \<and> getJSApiConfig example_env example_options ''https://a.com/p?x=1#frag'' JUndefined
        (world_ticket 1000)
     = (Inr \<lparr>corpId = JStr ''corp'', timeStamp = JNum 1000, nonceStr = JStr ''DingTalk#1000'',
             signature = ''digest of jsapi_ticket=T&noncestr=DingTalk#1000&timestamp=1000&url=https://a.com/p?x=1''\<rparr>,
        world_ticket 1000)"
proof -
  have t: "getJSApiTicket example_env example_options JUndefined (world_ticket 1000)
             = (Inr (JStr ''T''), world_ticket 1000)"
    by (rule getJSApiTicket_cached_example) simp
  have c: "clock (world_ticket 1000) = 1000" by (simp add: world_ticket_def)
  from getJSApiConfig_signature [OF t, of "''https://a.com/p?x=1#frag''" JUndefined] t
  show ?thesis
    unfolding c spec_sign_string_example
    by (simp add: spec_sign_record_def example_options_def example_env_def show_int_def
          show_nat.simps digit_chars_def)
qed

text \<open>
  C7. With \<^verbatim>\<open>noncestr\<close> and \<^verbatim>\<open>timestamp\<close> given in \<open>opts\<close>, the signature depends on
  the ticket, \<open>opts\<close> and the URL only: two calls that get the same ticket, at whatever
  time, in whatever state and with whatever configuration, return the same signature,
  time stamp and nonce.
\<close>

theorem getJSApiConfig_deterministic:
  assumes "getJSApiTicket ev os JUndefined w = (Inr tk, w1)"
    and "getJSApiTicket ev' os' JUndefined w' = (Inr tk, w1')"
    and "sha1_hex ev' = sha1_hex ev"
    and "''noncestr'' \<in> set (map fst (own_entries opts))"
    and "''timestamp'' \<in> set (map fst (own_entries opts))"
  shows "\<exists>c c'. getJSApiConfig ev os url opts w = (Inr c, w1)
             \<and> getJSApiConfig ev' os' url opts w' = (Inr c', w1')
             \<and> signature c = signature c'
             \<and> timeStamp c = timeStamp c' \<and> nonceStr c = nonceStr c'"
proof -
  note a = getJSApiConfig_spec [OF assms(1), of url opts]
  note b = getJSApiConfig_spec [OF assms(2), of url opts]
  have s: "spec_sign_string tk (clock w1) url opts = spec_sign_string tk (clock w1') url opts"
    by (rule spec_sign_string_pinned [OF assms(4,5)])
  have r: "spec_sign_record tk (clock w1) url opts k = spec_sign_record tk (clock w1') url opts k"
    if "k \<in> set (map fst (own_entries opts))" for k
  proof -
    from that obtain v where "map_of (rev (own_entries opts)) k = Some v"
      by (metis map_of_eq_None_iff not_Some_eq set_map set_rev)
    then show ?thesis by (simp add: spec_sign_record_def)
  qed
  show ?thesis
    unfolding a b using s r [OF assms(4)] r [OF assms(5)] assms(3) by simp
qed

theorem getJSApiConfig_deterministic_witness:
  "\<exists>c c'. getJSApiConfig example_env example_options ''https://a.com/p''
             (JObj [(''noncestr'', JStr ''N''), (''timestamp'', JNum 1000)]) (world_ticket 1000)
           = (Inr c, world_ticket 1000)
         \<and> getJSApiConfig example_env (example_options\<lparr>corpid := JStr ''other''\<rparr>) ''https://a.com/p''
             (JObj [(''noncestr'', JStr ''N''), (''timestamp'', JNum 1000)]) (world_ticket 2000)
           = (Inr c', world_ticket 2000)
         \<and> signature c = signature c'
         \<and> timeStamp c = timeStamp c' \<and> nonceStr c = nonceStr c'"
proof -
  have t: "getJSApiTicket example_env example_options JUndefined (world_ticket 1000)
             = (Inr (JStr ''T''), world_ticket 1000)"
    by (rule getJSApiTicket_cached_example) simp
  have t': "getJSApiTicket example_env (example_options\<lparr>corpid := JStr ''other''\<rparr>) JUndefined
              (world_ticket 2000) = (Inr (JStr ''T''), world_ticket 2000)"
    by (rule getJSApiTicket_cached_example) simp
  have n: "''noncestr'' \<in> set (map fst (own_entries
              (JObj [(''noncestr'', JStr ''N''), (''timestamp'', JNum 1000)])))"
    and s: "''timestamp'' \<in> set (map fst (own_entries
              (JObj [(''noncestr'', JStr ''N''), (''timestamp'', JNum 1000)])))"
    by simp_all
  show ?thesis
    by (rule getJSApiConfig_deterministic [OF t t' refl n s])
qed

end
